theory Spec2Isabelle
  imports Complex_Main
begin

section \<open>The MANO joint topology table (common/utils/mano.py)\<close>

text \<open>
  The constructor of class \<open>MANO\<close> only fills constant fields. The fields of the two-hand
  joint set are embedded as constants; joint indices are natural numbers, joint names are
  strings.
\<close>

definition th_joint_num :: nat where
  "th_joint_num = 42"

definition th_joints_name :: "string list" where
  "th_joints_name =
     [''R_Wrist'', ''R_Thumb_1'', ''R_Thumb_2'', ''R_Thumb_3'', ''R_Thumb_4'',
      ''R_Index_1'', ''R_Index_2'', ''R_Index_3'', ''R_Index_4'',
      ''R_Middle_1'', ''R_Middle_2'', ''R_Middle_3'', ''R_Middle_4'',
      ''R_Ring_1'', ''R_Ring_2'', ''R_Ring_3'', ''R_Ring_4'',
      ''R_Pinky_1'', ''R_Pinky_2'', ''R_Pinky_3'', ''R_Pinky_4'',
      ''L_Wrist'', ''L_Thumb_1'', ''L_Thumb_2'', ''L_Thumb_3'', ''L_Thumb_4'',
      ''L_Index_1'', ''L_Index_2'', ''L_Index_3'', ''L_Index_4'',
      ''L_Middle_1'', ''L_Middle_2'', ''L_Middle_3'', ''L_Middle_4'',
      ''L_Ring_1'', ''L_Ring_2'', ''L_Ring_3'', ''L_Ring_4'',
      ''L_Pinky_1'', ''L_Pinky_2'', ''L_Pinky_3'', ''L_Pinky_4'']"

text \<open>\<^verbatim>\<open>[(i,i+21) for i in range(21)]\<close>\<close>

definition th_flip_pairs :: "(nat \<times> nat) list" where
  "th_flip_pairs = map (\<lambda>i. (i, i + 21)) [0..<21]"

text \<open>
  \<^verbatim>\<open>{'right': np.arange(0, th_joint_num//2), 'left': np.arange(th_joint_num//2, th_joint_num)}\<close>:
  a dictionary with the two keys \<open>right\<close> and \<open>left\<close>.
\<close>

definition th_joint_type :: "string \<rightharpoonup> nat list" where
  "th_joint_type =
     [''right'' \<mapsto> [0..<th_joint_num div 2],
      ''left'' \<mapsto> [th_joint_num div 2..<th_joint_num]]"

section \<open>Tensor entries (torch float tensors)\<close>

text \<open>
  An entry of a float tensor is a number, an infinity or NaN. Finite entries carry a real
  number: rounding and overflow of the 32-bit format are idealised away, the special values
  and the way the operators of torch treat them are kept. The zero of the model is unsigned.
\<close>

datatype fl = Fin real | PInf | NInf | NaN

fun fneg :: "fl \<Rightarrow> fl" where
  "fneg (Fin x) = Fin (- x)"
| "fneg PInf = NInf"
| "fneg NInf = PInf"
| "fneg NaN = NaN"

fun fadd :: "fl \<Rightarrow> fl \<Rightarrow> fl" where
  "fadd (Fin x) (Fin y) = Fin (x + y)"
| "fadd NaN b = NaN"
| "fadd a NaN = NaN"
| "fadd PInf NInf = NaN"
| "fadd NInf PInf = NaN"
| "fadd PInf b = PInf"
| "fadd a PInf = PInf"
| "fadd NInf b = NInf"
| "fadd a NInf = NInf"

definition fsub :: "fl \<Rightarrow> fl \<Rightarrow> fl" where
  "fsub a b = fadd a (fneg b)"

text \<open>The product of an infinity \<open>i\<close> with the finite number \<open>x\<close>.\<close>

definition inf_times :: "fl \<Rightarrow> real \<Rightarrow> fl" where
  "inf_times i x = (if x = 0 then NaN else if 0 < x then i else fneg i)"

fun fmul :: "fl \<Rightarrow> fl \<Rightarrow> fl" where
  "fmul (Fin x) (Fin y) = Fin (x * y)"
| "fmul NaN b = NaN"
| "fmul a NaN = NaN"
| "fmul (Fin x) b = inf_times b x"
| "fmul a (Fin y) = inf_times a y"
| "fmul PInf b = b"
| "fmul NInf b = fneg b"

fun fdiv :: "fl \<Rightarrow> fl \<Rightarrow> fl" where
  "fdiv (Fin x) (Fin y) =
     (if y = 0 then (if x = 0 then NaN else if 0 < x then PInf else NInf) else Fin (x / y))"
| "fdiv NaN b = NaN"
| "fdiv a NaN = NaN"
| "fdiv (Fin x) b = Fin 0"
| "fdiv a (Fin y) = (if 0 \<le> y then a else fneg a)"
| "fdiv a b = NaN"

fun fabs :: "fl \<Rightarrow> fl" where
  "fabs (Fin x) = Fin \<bar>x\<bar>"
| "fabs PInf = PInf"
| "fabs NInf = PInf"
| "fabs NaN = NaN"

fun fsqrt :: "fl \<Rightarrow> fl" where
  "fsqrt (Fin x) = (if x < 0 then NaN else Fin (sqrt x))"
| "fsqrt PInf = PInf"
| "fsqrt NInf = NaN"
| "fsqrt NaN = NaN"

fun fsin :: "fl \<Rightarrow> fl" where
  "fsin (Fin x) = Fin (sin x)"
| "fsin a = NaN"

fun fcos :: "fl \<Rightarrow> fl" where
  "fcos (Fin x) = Fin (cos x)"
| "fcos a = NaN"

text \<open>\<^verbatim>\<open>torch.acos\<close>: NaN outside \<open>[-1, 1]\<close>, nothing is raised.\<close>

fun facos :: "fl \<Rightarrow> fl" where
  "facos (Fin x) = (if - 1 \<le> x \<and> x \<le> 1 then Fin (arccos x) else NaN)"
| "facos a = NaN"

text \<open>\<^verbatim>\<open>torch.clamp(x, lo, hi)\<close> is \<open>min (max x lo) hi\<close> and keeps NaN.\<close>

fun fclamp :: "fl \<Rightarrow> real \<Rightarrow> real \<Rightarrow> fl" where
  "fclamp (Fin x) lo hi = Fin (min (max x lo) hi)"
| "fclamp PInf lo hi = Fin hi"
| "fclamp NInf lo hi = Fin (min lo hi)"
| "fclamp NaN lo hi = NaN"

text \<open>The comparison \<open><\<close>: false as soon as one side is NaN.\<close>

fun fless :: "fl \<Rightarrow> fl \<Rightarrow> bool" where
  "fless (Fin x) (Fin y) = (x < y)"
| "fless NaN b = False"
| "fless a NaN = False"
| "fless a NInf = False"
| "fless PInf b = False"
| "fless a b = True"

fun is_fin :: "fl \<Rightarrow> bool" where
  "is_fin (Fin x) = True"
| "is_fin a = False"

section \<open>Vectors and matrices of the trailing dimensions\<close>

type_synonym vec3 = "fl \<times> fl \<times> fl"

type_synonym mat3 = "vec3 \<times> vec3 \<times> vec3"

text \<open>\<^verbatim>\<open>torch.norm(v, dim=1)\<close> of one row: the square root of the sum of the squares.\<close>

fun fnorm3 :: "vec3 \<Rightarrow> fl" where
  "fnorm3 (x, y, z) = fsqrt (fadd (fadd (fmul x x) (fmul y y)) (fmul z z))"

fun vdiv :: "vec3 \<Rightarrow> fl \<Rightarrow> vec3" where
  "vdiv (x, y, z) d = (fdiv x d, fdiv y d, fdiv z d)"

fun vscale :: "fl \<Rightarrow> vec3 \<Rightarrow> vec3" where
  "vscale c (x, y, z) = (fmul c x, fmul c y, fmul c z)"

fun vadd :: "vec3 \<Rightarrow> vec3 \<Rightarrow> vec3" where
  "vadd (a, b, c) (x, y, z) = (fadd a x, fadd b y, fadd c z)"

fun vsub :: "vec3 \<Rightarrow> vec3 \<Rightarrow> vec3" where
  "vsub (a, b, c) (x, y, z) = (fsub a x, fsub b y, fsub c z)"

fun vabs :: "vec3 \<Rightarrow> vec3" where
  "vabs (x, y, z) = (fabs x, fabs y, fabs z)"

text \<open>The sum of products of one entry of a matrix product, in index order.\<close>

fun dot3 :: "vec3 \<Rightarrow> vec3 \<Rightarrow> fl" where
  "dot3 (a, b, c) (x, y, z) = fadd (fadd (fmul a x) (fmul b y)) (fmul c z)"

fun mscale :: "fl \<Rightarrow> mat3 \<Rightarrow> mat3" where
  "mscale c (r0, r1, r2) = (vscale c r0, vscale c r1, vscale c r2)"

fun madd :: "mat3 \<Rightarrow> mat3 \<Rightarrow> mat3" where
  "madd (a0, a1, a2) (b0, b1, b2) = (vadd a0 b0, vadd a1 b1, vadd a2 b2)"

fun msub :: "mat3 \<Rightarrow> mat3 \<Rightarrow> mat3" where
  "msub (a0, a1, a2) (b0, b1, b2) = (vsub a0 b0, vsub a1 b1, vsub a2 b2)"

fun mabs :: "mat3 \<Rightarrow> mat3" where
  "mabs (r0, r1, r2) = (vabs r0, vabs r1, vabs r2)"

fun mcol :: "mat3 \<Rightarrow> nat \<Rightarrow> vec3" where
  "mcol ((a00, a01, a02), (a10, a11, a12), (a20, a21, a22)) j =
     (if j = 0 then (a00, a10, a20) else if j = 1 then (a01, a11, a21) else (a02, a12, a22))"

text \<open>\<^verbatim>\<open>torch.bmm\<close> on one pair of 3x3 blocks.\<close>

fun bmm :: "mat3 \<Rightarrow> mat3 \<Rightarrow> mat3" where
  "bmm (r0, r1, r2) B =
     ((dot3 r0 (mcol B 0), dot3 r0 (mcol B 1), dot3 r0 (mcol B 2)),
      (dot3 r1 (mcol B 0), dot3 r1 (mcol B 1), dot3 r1 (mcol B 2)),
      (dot3 r2 (mcol B 0), dot3 r2 (mcol B 1), dot3 r2 (mcol B 2)))"

text \<open>\<^verbatim>\<open>torch.eye(3)\<close>\<close>

definition eye3 :: mat3 where
  "eye3 = ((Fin 1, Fin 0, Fin 0), (Fin 0, Fin 1, Fin 0), (Fin 0, Fin 0, Fin 1))"

definition zeros3 :: vec3 where
  "zeros3 = (Fin 0, Fin 0, Fin 0)"

section \<open>Rotation conversions (common/nets/loss.py)\<close>

text \<open>
  Both conversions flatten the leading dimensions (\<^verbatim>\<open>reshape(-1, 3)\<close>), work on every row
  of the flattened batch with vectorised operators, and restore the leading dimensions at
  the end. The work on one row is \<open>axis_angle_to_matrix_row\<close> and
  \<open>matrix_to_axis_angle_row\<close>; the local names are those of the source.
  \<^verbatim>\<open>torch.where(mask, a, b)\<close> on one row is \<open>if mask then a else b\<close>.
\<close>

definition axis_angle_to_matrix_row :: "vec3 \<Rightarrow> mat3" where
  "axis_angle_to_matrix_row axis_angle =
     (let angle = fnorm3 axis_angle;
          axis = vdiv axis_angle (fadd angle (Fin (1 / 10 ^ 8)));
          cos_angle = fcos angle;
          sin_angle = fsin angle;
          K = (case axis of (ax, ay, az) \<Rightarrow>
                 ((Fin 0, fneg az, ay), (az, Fin 0, fneg ax), (fneg ay, ax, Fin 0)));
          I = eye3;
          R = madd (madd I (mscale sin_angle K))
                (mscale (fsub (Fin 1) cos_angle) (bmm K K));
          small_angle_mask = fless angle (Fin (1 / 10 ^ 3))
      in if small_angle_mask then I else R)"

text \<open>Input of shape \<open>(B, 3)\<close>.\<close>

definition axis_angle_to_matrix :: "vec3 list \<Rightarrow> mat3 list" where
  "axis_angle_to_matrix axis_angle = map axis_angle_to_matrix_row axis_angle"

text \<open>Input of shape \<open>(B, N, 3)\<close>: the rows are regrouped as they came.\<close>

definition axis_angle_to_matrix_bn :: "vec3 list list \<Rightarrow> mat3 list list" where
  "axis_angle_to_matrix_bn axis_angle = map axis_angle_to_matrix axis_angle"

definition matrix_to_axis_angle_row :: "mat3 \<Rightarrow> vec3" where
  "matrix_to_axis_angle_row matrix =
     (case matrix of ((m00, m01, m02), (m10, m11, m12), (m20, m21, m22)) \<Rightarrow>
       (let trace = fadd (fadd m00 m11) m22;
            angle = facos (fclamp (fdiv (fsub trace (Fin 1)) (Fin 2)) (- 1) 1);
            axis = (fsub m21 m12, fsub m02 m20, fsub m10 m01);
            axis_norm = fnorm3 axis;
            axis = vdiv axis (fadd axis_norm (Fin (1 / 10 ^ 8)));
            axis_angle = vscale angle axis;
            small_angle_mask = fless angle (Fin (1 / 10 ^ 3))
        in if small_angle_mask then zeros3 else axis_angle))"

definition matrix_to_axis_angle :: "mat3 list \<Rightarrow> vec3 list" where
  "matrix_to_axis_angle matrix = map matrix_to_axis_angle_row matrix"

section \<open>Shapes, broadcasting and reshaping\<close>

text \<open>
  A tensor with leading dimensions is a rectangular nested list. An operation that torch
  refuses because the shapes do not fit raises a \<^verbatim>\<open>RuntimeError\<close>, the value
  \<open>ShapeError\<close> here.
\<close>

datatype error = ShapeError

fun collect :: "(error + 'a) list \<Rightarrow> error + 'a list" where
  "collect [] = Inr []"
| "collect (r # rs) =
     (case r of Inl e \<Rightarrow> Inl e
      | Inr x \<Rightarrow> (case collect rs of Inl e \<Rightarrow> Inl e | Inr xs \<Rightarrow> Inr (x # xs)))"

text \<open>
  A binary operator along one dimension: the sizes agree, or one of them is one and that
  operand is repeated.
\<close>

definition broadcast2 :: "('a \<Rightarrow> 'b \<Rightarrow> error + 'c) \<Rightarrow> 'a list \<Rightarrow> 'b list \<Rightarrow> error + 'c list" where
  "broadcast2 f xs ys =
     (if length xs = length ys then collect (map2 f xs ys)
      else if length xs = 1 then collect (map (f (hd xs)) ys)
      else if length ys = 1 then collect (map (\<lambda>x. f x (hd ys)) xs)
      else Inl ShapeError)"

text \<open>\<^verbatim>\<open>torch.cat((A, B), 2)\<close>: the first two dimensions have to agree.\<close>

definition cat2 :: "'a list list list \<Rightarrow> 'a list list list \<Rightarrow> error + 'a list list list" where
  "cat2 A B =
     (if length A = length B \<and> list_all2 (\<lambda>a b. length a = length b) A B
      then Inr (map2 (map2 (@)) A B)
      else Inl ShapeError)"

fun triples :: "'a list \<Rightarrow> ('a \<times> 'a \<times> 'a) list" where
  "triples (x # y # z # rest) = (x, y, z) # triples rest"
| "triples rest = []"

text \<open>
  \<^verbatim>\<open>t.view(batch_size, -1, 3)\<close> of a two-dimensional tensor: the entries in row-major
  order are cut into \<open>batch_size\<close> rows of triples. The number of entries has to be a
  multiple of \<open>3 * batch_size\<close>, and an empty batch leaves the free dimension ambiguous.
\<close>

definition view_b3 :: "nat \<Rightarrow> 'a list list \<Rightarrow> error + ('a \<times> 'a \<times> 'a) list list" where
  "view_b3 batch_size t =
     (let flat = concat t; n = length flat
      in if batch_size = 0 \<or> n mod (batch_size * 3) \<noteq> 0 then Inl ShapeError
         else Inr (map (\<lambda>b. triples (take (n div batch_size) (drop (b * (n div batch_size)) flat)))
                     [0..<batch_size]))"

section \<open>Losses (common/nets/loss.py)\<close>

text \<open>
  \<open>CoordLoss.forward\<close>. The coordinates and \<open>valid\<close> are three-dimensional tensors,
  \<open>is_3D\<close> is one-dimensional and given by its entries after \<^verbatim>\<open>.float()\<close>;
  \<^verbatim>\<open>is_3D[:,None,None]\<close> has shape \<open>(B, 1, 1)\<close>. The slices \<^verbatim>\<open>[:,:,2:]\<close> and
  \<^verbatim>\<open>[:,:,:2]\<close> are \<open>drop 2\<close> and \<open>take 2\<close> on the last dimension.
\<close>

definition elementwise3 ::
  "(fl \<Rightarrow> fl \<Rightarrow> fl) \<Rightarrow> fl list list list \<Rightarrow> fl list list list \<Rightarrow> error + fl list list list" where
  "elementwise3 f = broadcast2 (broadcast2 (broadcast2 (\<lambda>a b. Inr (f a b))))"

definition CoordLoss ::
  "fl list list list \<Rightarrow> fl list list list \<Rightarrow> fl list list list \<Rightarrow> fl list
     \<Rightarrow> error + fl list list list" where
  "CoordLoss coord_out coord_gt valid is_3D =
     (case elementwise3 fsub coord_out coord_gt of Inl e \<Rightarrow> Inl e
      | Inr diff \<Rightarrow>
     (case elementwise3 fmul (map (map (map fabs)) diff) valid of Inl e \<Rightarrow> Inl e
      | Inr loss \<Rightarrow>
     (case elementwise3 fmul (map (map (drop 2)) loss) (map (\<lambda>x. [[x]]) is_3D) of
        Inl e \<Rightarrow> Inl e
      | Inr loss_z \<Rightarrow> cat2 (map (map (take 2)) loss) loss_z)))"

text \<open>A 3x3 block times one entry of the mask, the mask on the right as in the source.\<close>

fun vtimes :: "vec3 \<Rightarrow> fl \<Rightarrow> vec3" where
  "vtimes (x, y, z) c = (fmul x c, fmul y c, fmul z c)"

fun mtimes :: "mat3 \<Rightarrow> fl \<Rightarrow> mat3" where
  "mtimes (r0, r1, r2) c = (vtimes r0 c, vtimes r1 c, vtimes r2 c)"

text \<open>
  \<open>PoseLoss.forward\<close>. The poses are two-dimensional tensors \<open>(B, J * 3)\<close>, the mask is
  two-dimensional; \<^verbatim>\<open>pose_valid[:,:,None,None]\<close> has shape \<open>(B, J, 1, 1)\<close>, so one entry
  of the mask multiplies a whole 3x3 block.
\<close>

definition PoseLoss ::
  "fl list list \<Rightarrow> fl list list \<Rightarrow> fl list list \<Rightarrow> error + mat3 list list" where
  "PoseLoss pose_out pose_gt pose_valid =
     (let batch_size = length pose_out
      in case view_b3 batch_size pose_out of Inl e \<Rightarrow> Inl e
         | Inr pose_out3 \<Rightarrow>
        (case view_b3 batch_size pose_gt of Inl e \<Rightarrow> Inl e
         | Inr pose_gt3 \<Rightarrow>
        (let rot_out = axis_angle_to_matrix_bn pose_out3;
             rot_gt = axis_angle_to_matrix_bn pose_gt3
         in case broadcast2 (broadcast2 (\<lambda>a b. Inr (msub a b))) rot_out rot_gt of
              Inl e \<Rightarrow> Inl e
            | Inr diff \<Rightarrow>
                broadcast2 (broadcast2 (\<lambda>m v. Inr (mtimes m v)))
                  (map (map mabs) diff) pose_valid)))"

section \<open>Numbers: the notions the properties are stated with\<close>

type_synonym rvec3 = "real \<times> real \<times> real"

type_synonym rmat3 = "rvec3 \<times> rvec3 \<times> rvec3"

text \<open>A vector and a matrix of numbers as tensor entries.\<close>

fun fin_vec :: "rvec3 \<Rightarrow> vec3" where
  "fin_vec (x, y, z) = (Fin x, Fin y, Fin z)"

fun fin_mat :: "rmat3 \<Rightarrow> mat3" where
  "fin_mat (r0, r1, r2) = (fin_vec r0, fin_vec r1, fin_vec r2)"

text \<open>The Euclidean norm.\<close>

definition rnorm3 :: "rvec3 \<Rightarrow> real" where
  "rnorm3 v = (case v of (x, y, z) \<Rightarrow> sqrt (x * x + y * y + z * z))"

fun vec_entries :: "rvec3 \<Rightarrow> real list" where
  "vec_entries (x, y, z) = [x, y, z]"

fun mat_entries :: "rmat3 \<Rightarrow> real list" where
  "mat_entries (r0, r1, r2) = vec_entries r0 @ vec_entries r1 @ vec_entries r2"

text \<open>Two vectors, two matrices agree within a tolerance, entry by entry.\<close>

definition near_vec :: "real \<Rightarrow> rvec3 \<Rightarrow> rvec3 \<Rightarrow> bool" where
  "near_vec tol v w = list_all2 (\<lambda>a b. \<bar>a - b\<bar> \<le> tol) (vec_entries v) (vec_entries w)"

definition near_mat :: "real \<Rightarrow> rmat3 \<Rightarrow> rmat3 \<Rightarrow> bool" where
  "near_mat tol A B = list_all2 (\<lambda>a b. \<bar>a - b\<bar> \<le> tol) (mat_entries A) (mat_entries B)"

definition ident3 :: rmat3 where
  "ident3 = ((1, 0, 0), (0, 1, 0), (0, 0, 1))"

text \<open>The product of the transpose of a matrix with the matrix, and the determinant.\<close>

fun gram :: "rmat3 \<Rightarrow> rmat3" where
  "gram ((a, b, c), (d, e, f), (g, h, i)) =
     ((a * a + d * d + g * g, a * b + d * e + g * h, a * c + d * f + g * i),
      (b * a + e * d + h * g, b * b + e * e + h * h, b * c + e * f + h * i),
      (c * a + f * d + i * g, c * b + f * e + i * h, c * c + f * f + i * i))"

fun det3 :: "rmat3 \<Rightarrow> real" where
  "det3 ((a, b, c), (d, e, f), (g, h, i)) =
     a * (e * i - f * h) - b * (d * i - f * g) + c * (d * h - e * g)"

text \<open>
  The value of Rodrigues' formula \<open>I + s K + c K\<^sup>2\<close> for the cross product matrix \<open>K\<close> of an
  axis \<open>(p, q, r)\<close>, written out, and the matrix the source computes for a vector of numbers
  outside the small-angle branch.
\<close>

definition rot_about :: "real \<Rightarrow> real \<Rightarrow> rvec3 \<Rightarrow> rmat3" where
  "rot_about s c axis =
     (case axis of (p, q, r) \<Rightarrow>
        ((1 - c * (q * q + r * r), c * (p * q) - s * r, c * (p * r) + s * q),
         (c * (p * q) + s * r, 1 - c * (p * p + r * r), c * (q * r) - s * p),
         (c * (p * r) - s * q, c * (q * r) + s * p, 1 - c * (p * p + q * q))))"

definition rodrigues :: "rvec3 \<Rightarrow> rmat3" where
  "rodrigues v =
     (case v of (x, y, z) \<Rightarrow>
       (let a = rnorm3 v; d = a + 1 / 10 ^ 8
        in rot_about (sin a) (1 - cos a) (x / d, y / d, z / d)))"

text \<open>
  The vector \<open>matrix_to_axis_angle\<close> computes for a matrix of numbers, written out.
\<close>

definition axis_angle_of :: "rmat3 \<Rightarrow> rvec3" where
  "axis_angle_of M =
     (case M of ((m00, m01, m02), (m10, m11, m12), (m20, m21, m22)) \<Rightarrow>
       (let angle = arccos (min (max ((m00 + m11 + m22 - 1) / 2) (- 1)) 1);
            d = rnorm3 (m21 - m12, m02 - m20, m10 - m01) + 1 / 10 ^ 8
        in if angle < 1 / 10 ^ 3 then (0, 0, 0)
           else (angle * ((m21 - m12) / d), angle * ((m02 - m20) / d),
                 angle * ((m10 - m01) / d))))"

section \<open>Shapes and blocks: the notions the properties of the losses are stated with\<close>

text \<open>A two-dimensional tensor of shape \<open>(B, J)\<close> and a three-dimensional one of shape \<open>(B, J, C)\<close>.\<close>

definition rect2 :: "nat \<Rightarrow> nat \<Rightarrow> 'a list list \<Rightarrow> bool" where
  "rect2 B J t \<longleftrightarrow> length t = B \<and> list_all (\<lambda>row. length row = J) t"

definition rect3 :: "nat \<Rightarrow> nat \<Rightarrow> nat \<Rightarrow> 'a list list list \<Rightarrow> bool" where
  "rect3 B J C t \<longleftrightarrow> length t = B \<and> list_all (rect2 J C) t"

text \<open>The three entries of joint \<open>j\<close> in one row of a pose tensor of shape \<open>(B, J * 3)\<close>.\<close>

definition joint_pose :: "fl list \<Rightarrow> nat \<Rightarrow> vec3" where
  "joint_pose row j = (row ! (3 * j), row ! (3 * j + 1), row ! (3 * j + 2))"

fun vec3_entries :: "vec3 \<Rightarrow> fl list" where
  "vec3_entries (x, y, z) = [x, y, z]"

fun mat3_entries :: "mat3 \<Rightarrow> fl list" where
  "mat3_entries (r0, r1, r2) = vec3_entries r0 @ vec3_entries r1 @ vec3_entries r2"

definition zero_block :: mat3 where
  "zero_block = ((Fin 0, Fin 0, Fin 0), (Fin 0, Fin 0, Fin 0), (Fin 0, Fin 0, Fin 0))"

definition nan_block :: mat3 where
  "nan_block = ((NaN, NaN, NaN), (NaN, NaN, NaN), (NaN, NaN, NaN))"

section \<open>Magnitudes that stay finite in the 32-bit format\<close>

text \<open>
  The largest finite number of the 32-bit format is about \<open>3.4e38\<close>; a sum or a product
  beyond it is an infinity there, while a finite entry of this theory carries any real
  number. A number of magnitude at most \<open>10\<^sup>1\<^sup>8\<close> is called moderate: squares, sums of three
  squares, differences and products of two moderate numbers stay below \<open>1.2e37\<close>, so on
  moderate entries the format does not overflow where the properties below are stated.
\<close>

definition moderate :: "real \<Rightarrow> bool" where
  "moderate r \<longleftrightarrow> \<bar>r\<bar> \<le> 10 ^ 18"

fun moderate_entry :: "fl \<Rightarrow> bool" where
  "moderate_entry (Fin r) = moderate r"
| "moderate_entry a = False"

text \<open>A three-dimensional tensor all of whose entries are moderate numbers.\<close>

definition moderate3 :: "fl list list list \<Rightarrow> bool" where
  "moderate3 t \<longleftrightarrow> list_all (list_all (list_all moderate_entry)) t"

section \<open>The conversions with the uses of division and \<open>acos\<close> recorded\<close>

text \<open>
  torch raises nothing on a division by zero or on an argument of \<open>acos\<close> outside
  \<open>[-1, 1]\<close>: it returns an infinity or NaN. To state that the guards of the source keep
  these events from happening, the two conversions are written a second time, line by line
  as before, with the division of the axis and the call of \<open>acos\<close> recorded: a division by
  zero or an argument outside the domain ends the run with a fault.
\<close>

datatype fault = DivisionByZero | AcosDomain

definition checked_div :: "fl \<Rightarrow> fl \<Rightarrow> fault + fl" where
  "checked_div a b = (if b = Fin 0 then Inl DivisionByZero else Inr (fdiv a b))"

fun checked_acos :: "fl \<Rightarrow> fault + fl" where
  "checked_acos (Fin x) = (if - 1 \<le> x \<and> x \<le> 1 then Inr (facos (Fin x)) else Inl AcosDomain)"
| "checked_acos NaN = Inr (facos NaN)"
| "checked_acos a = Inl AcosDomain"

fun checked_vdiv :: "vec3 \<Rightarrow> fl \<Rightarrow> fault + vec3" where
  "checked_vdiv (x, y, z) d =
     (case checked_div x d of Inl f \<Rightarrow> Inl f
      | Inr x' \<Rightarrow>
     (case checked_div y d of Inl f \<Rightarrow> Inl f
      | Inr y' \<Rightarrow>
     (case checked_div z d of Inl f \<Rightarrow> Inl f
      | Inr z' \<Rightarrow> Inr (x', y', z'))))"

definition axis_angle_to_matrix_row_checked :: "vec3 \<Rightarrow> fault + mat3" where
  "axis_angle_to_matrix_row_checked axis_angle =
     (let angle = fnorm3 axis_angle
      in case checked_vdiv axis_angle (fadd angle (Fin (1 / 10 ^ 8))) of Inl f \<Rightarrow> Inl f
         | Inr axis \<Rightarrow>
          (let cos_angle = fcos angle;
               sin_angle = fsin angle;
               K = (case axis of (ax, ay, az) \<Rightarrow>
                      ((Fin 0, fneg az, ay), (az, Fin 0, fneg ax), (fneg ay, ax, Fin 0)));
               I = eye3;
               R = madd (madd I (mscale sin_angle K))
                     (mscale (fsub (Fin 1) cos_angle) (bmm K K));
               small_angle_mask = fless angle (Fin (1 / 10 ^ 3))
           in Inr (if small_angle_mask then I else R)))"

definition matrix_to_axis_angle_row_checked :: "mat3 \<Rightarrow> fault + vec3" where
  "matrix_to_axis_angle_row_checked matrix =
     (case matrix of ((m00, m01, m02), (m10, m11, m12), (m20, m21, m22)) \<Rightarrow>
       (let trace = fadd (fadd m00 m11) m22
        in case checked_acos (fclamp (fdiv (fsub trace (Fin 1)) (Fin 2)) (- 1) 1) of
             Inl f \<Rightarrow> Inl f
           | Inr angle \<Rightarrow>
            (let axis = (fsub m21 m12, fsub m02 m20, fsub m10 m01);
                 axis_norm = fnorm3 axis
             in case checked_vdiv axis (fadd axis_norm (Fin (1 / 10 ^ 8))) of
                  Inl f \<Rightarrow> Inl f
                | Inr axis \<Rightarrow>
                   (let axis_angle = vscale angle axis;
                        small_angle_mask = fless angle (Fin (1 / 10 ^ 3))
                    in Inr (if small_angle_mask then zeros3 else axis_angle)))))"

section \<open>Properties of the joint table\<close>

lemma th_flip_pairs_unfold:
  "th_flip_pairs =
     [(0,21),(1,22),(2,23),(3,24),(4,25),(5,26),(6,27),(7,28),(8,29),(9,30),(10,31),
      (11,32),(12,33),(13,34),(14,35),(15,36),(16,37),(17,38),(18,39),(19,40),(20,41)]"
  unfolding th_flip_pairs_def by (simp add: upt_rec)

text \<open>
  Claim C10. Every flip pair \<open>(i, j)\<close> of the two-hand table has \<open>j = i + 21\<close>; the name
  of joint \<open>j\<close> starts with \<open>L_\<close> and the name of joint \<open>i\<close> is that name with \<open>R_\<close> in place
  of the leading \<open>L_\<close>; the first components of the pairs are exactly the right-hand indices
  \<open>0..20\<close> and the second components exactly the left-hand indices \<open>21..41\<close> of
  \<open>th_joint_type\<close>.
\<close>

theorem th_flip_pairs_mirror:
  "(\<forall>(i, j) \<in> set th_flip_pairs.
       j = i + 21 \<and> take 2 (th_joints_name ! j) = ''L_''
       \<and> th_joints_name ! i = ''R_'' @ drop 2 (th_joints_name ! j))
   \<and> length th_joints_name = th_joint_num
   \<and> map fst th_flip_pairs = [0..<21]
   \<and> th_joint_type ''right'' = Some (map fst th_flip_pairs)
   \<and> th_joint_type ''left'' = Some (map snd th_flip_pairs)
   \<and> map snd th_flip_pairs = [21..<42]"
proof -
  have names: "\<forall>(i, j) \<in> set th_flip_pairs.
       j = i + 21 \<and> take 2 (th_joints_name ! j) = ''L_''
       \<and> th_joints_name ! i = ''R_'' @ drop 2 (th_joints_name ! j)"
    unfolding th_flip_pairs_unfold by (simp add: th_joints_name_def)
  have len: "length th_joints_name = th_joint_num"
    by (simp add: th_joints_name_def th_joint_num_def)
  have fsts: "map fst th_flip_pairs = [0..<21]"
    unfolding th_flip_pairs_def by (simp add: comp_def)
  have snds: "map snd th_flip_pairs = [21..<42]"
    unfolding th_flip_pairs_unfold by (simp add: upt_rec)
  have right: "th_joint_type ''right'' = Some (map fst th_flip_pairs)"
    unfolding fsts by (simp add: th_joint_type_def th_joint_num_def)
  have left: "th_joint_type ''left'' = Some (map snd th_flip_pairs)"
    unfolding snds by (simp add: th_joint_type_def th_joint_num_def)
  from names len fsts right left snds show ?thesis by blast
qed

theorem th_flip_pairs_mirror_witness:
  "(3, 24) \<in> set th_flip_pairs
   \<and> th_joints_name ! 24 = ''L_Thumb_3''
   \<and> th_joints_name ! 3 = ''R_'' @ drop 2 (th_joints_name ! 24)"
proof -
  have m: "(3, 24) \<in> set th_flip_pairs"
    unfolding th_flip_pairs_unfold by simp
  have n: "th_joints_name ! 24 = ''L_Thumb_3''"
    by (simp add: th_joints_name_def)
  from th_flip_pairs_mirror
  have "\<forall>p \<in> set th_flip_pairs.
          th_joints_name ! fst p = ''R_'' @ drop 2 (th_joints_name ! snd p)"
    by (simp add: case_prod_beta)
  from bspec [OF this m]
  have "th_joints_name ! 3 = ''R_'' @ drop 2 (th_joints_name ! 24)"
    by simp
  with m n show ?thesis by blast
qed

section \<open>The conversions on numbers\<close>

lemma rnorm3_nonneg: "0 \<le> rnorm3 v"
  by (cases v) (simp add: rnorm3_def add_nonneg_nonneg)

lemma fnorm3_Fin: "fnorm3 (Fin x, Fin y, Fin z) = Fin (rnorm3 (x, y, z))"
proof -
  have "\<not> x * x + y * y + z * z < 0"
    by (simp add: not_less add_nonneg_nonneg)
  then show ?thesis by (simp add: rnorm3_def)
qed

lemma rodrigues_formula_Fin:
  "madd (madd eye3 (mscale (Fin s)
           ((Fin 0, fneg (Fin r), Fin q), (Fin r, Fin 0, fneg (Fin p)),
            (fneg (Fin q), Fin p, Fin 0))))
        (mscale (fsub (Fin 1) (Fin co))
           (bmm ((Fin 0, fneg (Fin r), Fin q), (Fin r, Fin 0, fneg (Fin p)),
                 (fneg (Fin q), Fin p, Fin 0))
                ((Fin 0, fneg (Fin r), Fin q), (Fin r, Fin 0, fneg (Fin p)),
                 (fneg (Fin q), Fin p, Fin 0))))
   = fin_mat (rot_about s (1 - co) (p, q, r))"
  by (simp add: eye3_def fsub_def rot_about_def algebra_simps)

lemma row_numeric:
  "axis_angle_to_matrix_row (Fin x, Fin y, Fin z) =
     (if rnorm3 (x, y, z) < 1 / 10 ^ 3 then eye3
      else fin_mat (rodrigues (x, y, z)))"
proof -
  define a where "a = rnorm3 (x, y, z)"
  define d where "d = a + 1 / 10 ^ 8"
  have a0: "0 \<le> a" by (simp add: a_def rnorm3_nonneg)
  then have d: "d \<noteq> 0" by (simp add: d_def)
  have ax: "vdiv (Fin x, Fin y, Fin z) (fadd (Fin a) (Fin (1 / 10 ^ 8)))
              = (Fin (x / d), Fin (y / d), Fin (z / d))"
    using d by (simp add: d_def)
  have rod: "rodrigues (x, y, z) = rot_about (sin a) (1 - cos a) (x / d, y / d, z / d)"
    by (simp add: rodrigues_def a_def d_def Let_def)
  show ?thesis
    unfolding axis_angle_to_matrix_row_def fnorm3_Fin a_def [symmetric] Let_def ax rod
    by (simp only: fsin.simps fcos.simps fless.simps prod.case rodrigues_formula_Fin)
qed

lemma clamp_range: "- 1 \<le> min (max (t::real) (- 1)) 1 \<and> min (max t (- 1)) 1 \<le> 1"
  by auto

lemma m2a_row_numeric_explicit:
  "matrix_to_axis_angle_row
     ((Fin m00, Fin m01, Fin m02), (Fin m10, Fin m11, Fin m12), (Fin m20, Fin m21, Fin m22))
   = fin_vec (axis_angle_of ((m00, m01, m02), (m10, m11, m12), (m20, m21, m22)))"
proof -
  define w where "w = min (max ((m00 + m11 + m22 - 1) / 2) (- 1)) 1"
  define n where "n = rnorm3 (m21 - m12, m02 - m20, m10 - m01)"
  define d where "d = n + 1 / 10 ^ 8"
  have w: "- 1 \<le> w" "w \<le> 1" using clamp_range by (simp_all add: w_def)
  have "0 \<le> n" by (simp add: n_def rnorm3_nonneg)
  then have d: "d \<noteq> 0" by (simp add: d_def)
  have ang: "facos (fclamp (fdiv (fsub (fadd (fadd (Fin m00) (Fin m11)) (Fin m22)) (Fin 1)) (Fin 2)) (- 1) 1)
        = Fin (arccos w)"
    using w by (simp add: fsub_def w_def)
  have nrm: "fnorm3 (fsub (Fin m21) (Fin m12), fsub (Fin m02) (Fin m20), fsub (Fin m10) (Fin m01)) = Fin n"
    unfolding n_def fnorm3_Fin [symmetric] by (simp add: fsub_def)
  have ax: "vdiv (fsub (Fin m21) (Fin m12), fsub (Fin m02) (Fin m20), fsub (Fin m10) (Fin m01))
              (fadd (Fin n) (Fin (1 / 10 ^ 8)))
          = (Fin ((m21 - m12) / d), Fin ((m02 - m20) / d), Fin ((m10 - m01) / d))"
    using d by (simp add: fsub_def d_def)
  have rhs: "axis_angle_of ((m00, m01, m02), (m10, m11, m12), (m20, m21, m22))
         = (if arccos w < 1 / 10 ^ 3 then (0, 0, 0)
           else (arccos w * ((m21 - m12) / d), arccos w * ((m02 - m20) / d),
                 arccos w * ((m10 - m01) / d)))"
    by (simp add: axis_angle_of_def w_def d_def n_def Let_def)
  show ?thesis
    unfolding matrix_to_axis_angle_row_def prod.case Let_def ang nrm ax rhs
    by (simp add: zeros3_def)
qed

lemma m2a_row_numeric:
  "matrix_to_axis_angle_row (fin_mat M) = fin_vec (axis_angle_of M)"
proof -
  obtain m00 m01 m02 m10 m11 m12 m20 m21 m22
    where M: "M = ((m00, m01, m02), (m10, m11, m12), (m20, m21, m22))"
    by (metis prod_cases3)
  show ?thesis
    unfolding M fin_mat.simps fin_vec.simps by (rule m2a_row_numeric_explicit)
qed

lemma rnorm3_scale: "rnorm3 (k * x, k * y, k * z) = \<bar>k\<bar> * rnorm3 (x, y, z)"
proof -
  have "(k * x) * (k * x) + (k * y) * (k * y) + (k * z) * (k * z)
        = (k * k) * (x * x + y * y + z * z)"
    by (simp add: algebra_simps)
  then show ?thesis
    by (simp add: rnorm3_def real_sqrt_mult)
qed

lemma axis_angle_of_norm: "rnorm3 (axis_angle_of M) \<le> pi"
proof -
  obtain m00 m01 m02 m10 m11 m12 m20 m21 m22
    where M: "M = ((m00, m01, m02), (m10, m11, m12), (m20, m21, m22))"
    by (metis prod_cases3)
  define w where "w = min (max ((m00 + m11 + m22 - 1) / 2) (- 1)) 1"
  define n where "n = rnorm3 (m21 - m12, m02 - m20, m10 - m01)"
  define d where "d = n + 1 / 10 ^ 8"
  have w: "- 1 \<le> w" "w \<le> 1" using clamp_range by (simp_all add: w_def)
  have n0: "0 \<le> n" by (simp add: n_def rnorm3_nonneg)
  then have d: "0 < d" by (simp add: d_def)
  have a0: "0 \<le> arccos w" and api: "arccos w \<le> pi"
    using w by (simp_all add: arccos_lbound arccos_ubound)
  have rhs: "axis_angle_of M = (if arccos w < 1 / 10 ^ 3 then (0, 0, 0)
           else ((arccos w / d) * (m21 - m12), (arccos w / d) * (m02 - m20),
                 (arccos w / d) * (m10 - m01)))"
    by (simp add: axis_angle_of_def M w_def d_def n_def Let_def)
  show ?thesis
  proof (cases "arccos w < 1 / 10 ^ 3")
    case True
    then show ?thesis by (simp add: rhs rnorm3_def)
  next
    case False
    define k where "k = arccos w / d"
    have eq: "axis_angle_of M = (k * (m21 - m12), k * (m02 - m20), k * (m10 - m01))"
      using False by (simp add: rhs k_def)
    have "rnorm3 (axis_angle_of M) = \<bar>k\<bar> * n"
      unfolding eq rnorm3_scale n_def ..
    also have "\<dots> = arccos w * (n / d)"
      using a0 d by (simp add: k_def)
    also have "\<dots> \<le> pi * 1"
    proof (rule mult_mono)
      show "n / d \<le> 1" using d n0 by (simp add: d_def)
    qed (use a0 api n0 d in simp_all)
    finally show ?thesis by simp
  qed
qed

section \<open>Properties of \<open>axis_angle_to_matrix\<close>\<close>

lemma eye3_fin: "eye3 = fin_mat ident3"
  by (simp add: eye3_def ident3_def)

lemma row_numeric_vec:
  "axis_angle_to_matrix_row (fin_vec v) =
     (if rnorm3 v < 1 / 10 ^ 3 then eye3 else fin_mat (rodrigues v))"
  by (cases v) (simp only: fin_vec.simps row_numeric)

lemma row_numeric_total: "\<exists>R. axis_angle_to_matrix_row (fin_vec v) = fin_mat R"
proof (cases "rnorm3 v < 1 / 10 ^ 3")
  case True
  then have "axis_angle_to_matrix_row (fin_vec v) = fin_mat ident3"
    by (simp only: row_numeric_vec eye3_fin if_True)
  then show ?thesis ..
next
  case False
  then have "axis_angle_to_matrix_row (fin_vec v) = fin_mat (rodrigues v)"
    by (simp only: row_numeric_vec if_False)
  then show ?thesis ..
qed

text \<open>
  Claim C3. The small-angle override of \<open>axis_angle_to_matrix\<close> is taken entry by entry: in
  a batch of any content, an entry that is a vector of numbers with norm below \<open>1/1000\<close> gives
  the identity block, an entry with norm at least \<open>1/1000\<close> gives the value of Rodrigues'
  formula, whatever the other entries are; the zero vector gives the identity.
\<close>

theorem small_angle_is_identity:
  "length (axis_angle_to_matrix vs) = length vs
   \<and> (\<forall>i < length vs. \<forall>v. vs ! i = fin_vec v \<longrightarrow>
        (rnorm3 v < 1 / 10 ^ 3 \<longrightarrow> axis_angle_to_matrix vs ! i = eye3)
      \<and> (1 / 10 ^ 3 \<le> rnorm3 v \<longrightarrow> axis_angle_to_matrix vs ! i = fin_mat (rodrigues v)))
   \<and> axis_angle_to_matrix [zeros3] = [eye3]"
proof -
  have zero: "axis_angle_to_matrix_row zeros3 = eye3"
    using row_numeric [of 0 0 0] by (simp add: zeros3_def rnorm3_def)
  show ?thesis
    by (simp add: axis_angle_to_matrix_def row_numeric_vec zero)
qed

theorem small_angle_is_identity_witness:
  "axis_angle_to_matrix [fin_vec (0, 0, 2), fin_vec (0, 0, 0), (NaN, NaN, NaN)] ! 1 = eye3
   \<and> axis_angle_to_matrix [fin_vec (0, 0, 2), fin_vec (0, 0, 0), (NaN, NaN, NaN)] ! 0
       = fin_mat (rodrigues (0, 0, 2))"
proof -
  let ?vs = "[fin_vec (0, 0, 2), fin_vec (0, 0, 0), (NaN, NaN, NaN)]"
  have n0: "rnorm3 (0, 0, 0) < 1 / 10 ^ 3" by (simp add: rnorm3_def)
  have n2: "1 / 10 ^ 3 \<le> rnorm3 (0, 0, 2)" by (simp add: rnorm3_def)
  from small_angle_is_identity [of ?vs]
  have all: "\<forall>i < length ?vs. \<forall>v. ?vs ! i = fin_vec v \<longrightarrow>
        (rnorm3 v < 1 / 10 ^ 3 \<longrightarrow> axis_angle_to_matrix ?vs ! i = eye3)
      \<and> (1 / 10 ^ 3 \<le> rnorm3 v \<longrightarrow> axis_angle_to_matrix ?vs ! i = fin_mat (rodrigues v))"
    by blast
  have a: "axis_angle_to_matrix ?vs ! 1 = eye3"
    using all [rule_format, of 1 "(0, 0, 0)"] n0 by simp
  have b: "axis_angle_to_matrix ?vs ! 0 = fin_mat (rodrigues (0, 0, 2))"
    using all [rule_format, of 0 "(0, 0, 2)"] n2 by simp
  from a b show ?thesis by blast
qed

lemma near_unit_ratio:
  fixes a :: real
  assumes "1 \<le> a"
  defines "s \<equiv> a / (a + 1 / 10 ^ 8)"
  shows "0 \<le> 1 - s" "1 - s \<le> 1 / 10 ^ 8" "0 \<le> s" "s \<le> 1"
proof -
  have pos: "0 < a + 1 / 10 ^ 8" using assms by simp
  have eq: "1 - s = (1 / 10 ^ 8) / (a + 1 / 10 ^ 8)"
    using pos by (simp add: s_def field_simps)
  show "0 \<le> 1 - s" unfolding eq using pos by simp
  have "(1 / 10 ^ 8) / (a + 1 / 10 ^ 8) \<le> (1 / 10 ^ 8) / 1"
    by (rule divide_left_mono) (use assms in simp_all)
  then show "1 - s \<le> 1 / 10 ^ 8" unfolding eq by simp
  show "0 \<le> s" using assms pos by (simp add: s_def)
  show "s \<le> 1" using pos assms by (simp add: s_def)
qed

text \<open>
  Claim C8. The vector \<open>[0, 0, \<pi>/2]\<close> is taken to a matrix within \<open>1/100000\<close> of
  \<open>[[0,-1,0],[1,0,0],[0,0,1]]\<close>, the quarter turn about the z axis.
\<close>

theorem quarter_turn_about_z:
  "\<exists>R. axis_angle_to_matrix [(Fin 0, Fin 0, Fin (pi / 2))] = [fin_mat R]
       \<and> near_mat (1 / 10 ^ 5) R ((0, - 1, 0), (1, 0, 0), (0, 0, 1))"
proof -
  define s where "s = (pi / 2) / (pi / 2 + 1 / 10 ^ 8)"
  have a1: "1 \<le> pi / 2" using pi_ge_two by simp
  note b = near_unit_ratio [OF a1, folded s_def]
  have nrm: "rnorm3 (0, 0, pi / 2) = pi / 2"
    using pi_ge_two by (simp add: rnorm3_def)
  have big: "\<not> rnorm3 (0, 0, pi / 2) < 1 / 10 ^ 3"
    unfolding nrm using pi_ge_two by simp
  have rod: "rodrigues (0, 0, pi / 2) = ((1 - s * s, - s, 0), (s, 1 - s * s, 0), (0, 0, 1))"
    unfolding rodrigues_def prod.case nrm Let_def by (simp add: rot_about_def s_def)
  have row: "axis_angle_to_matrix [(Fin 0, Fin 0, Fin (pi / 2))]
               = [fin_mat ((1 - s * s, - s, 0), (s, 1 - s * s, 0), (0, 0, 1))]"
    using row_numeric [of 0 0 "pi / 2"] big by (simp add: axis_angle_to_matrix_def rod)
  have e1: "\<bar>1 - s * s\<bar> \<le> 1 / 10 ^ 5"
  proof -
    have "1 - s * s = (1 - s) * (1 + s)" by (simp add: algebra_simps)
    moreover have "0 \<le> (1 - s) * (1 + s)" using b by simp
    moreover have "(1 - s) * (1 + s) \<le> (1 / 10 ^ 8) * 2"
      by (rule mult_mono) (use b in simp_all)
    ultimately show ?thesis by simp
  qed
  have e2: "\<bar>1 - s\<bar> \<le> 1 / 10 ^ 5" using b by simp
  have "near_mat (1 / 10 ^ 5) ((1 - s * s, - s, 0), (s, 1 - s * s, 0), (0, 0, 1))
          ((0, - 1, 0), (1, 0, 0), (0, 0, 1))"
    using e1 e2 by (simp add: near_mat_def abs_minus_commute)
  with row show ?thesis by blast
qed

section \<open>Totality and range of the conversions\<close>

lemma m2a_batch_numeric:
  "matrix_to_axis_angle (map fin_mat Ms) = map fin_vec (map axis_angle_of Ms)"
  by (simp add: matrix_to_axis_angle_def m2a_row_numeric)

lemma checked_vdiv_eq:
  "checked_vdiv v d = (if d = Fin 0 then Inl DivisionByZero else Inr (vdiv v d))"
  by (cases v) (simp add: checked_div_def)

lemma checked_acos_agrees: "checked_acos a = Inr r \<Longrightarrow> r = facos a"
  by (cases a) (auto split: if_splits)

text \<open>A run that ends without a fault returns what the conversion returns.\<close>

lemma a2m_row_checked_agrees:
  "axis_angle_to_matrix_row_checked v = Inr R \<Longrightarrow> R = axis_angle_to_matrix_row v"
  unfolding axis_angle_to_matrix_row_checked_def axis_angle_to_matrix_row_def Let_def
    checked_vdiv_eq
  by (auto split: if_splits)

lemma m2a_row_checked_agrees:
  assumes "matrix_to_axis_angle_row_checked M = Inr w"
  shows "w = matrix_to_axis_angle_row M"
proof -
  obtain m00 m01 m02 m10 m11 m12 m20 m21 m22
    where M: "M = ((m00, m01, m02), (m10, m11, m12), (m20, m21, m22))"
    by (metis prod_cases3)
  from assms show ?thesis
    unfolding M matrix_to_axis_angle_row_checked_def matrix_to_axis_angle_row_def Let_def
      checked_vdiv_eq prod.case
    by (auto split: sum.splits if_splits dest!: checked_acos_agrees)
qed

lemma a2m_row_fault_free:
  "axis_angle_to_matrix_row_checked (fin_vec v) = Inr (axis_angle_to_matrix_row (fin_vec v))"
proof -
  obtain x y z where v: "v = (x, y, z)" by (metis prod_cases3)
  have "0 \<le> rnorm3 (x, y, z)" by (rule rnorm3_nonneg)
  then have "fadd (fnorm3 (Fin x, Fin y, Fin z)) (Fin (1 / 10 ^ 8)) \<noteq> Fin 0"
    by (simp add: fnorm3_Fin del: fnorm3.simps)
  then show ?thesis
    unfolding v fin_vec.simps axis_angle_to_matrix_row_checked_def
      axis_angle_to_matrix_row_def Let_def checked_vdiv_eq
    by (simp del: fnorm3.simps)
qed

lemma m2a_row_fault_free:
  "matrix_to_axis_angle_row_checked (fin_mat M) = Inr (matrix_to_axis_angle_row (fin_mat M))"
proof -
  obtain m00 m01 m02 m10 m11 m12 m20 m21 m22
    where M: "M = ((m00, m01, m02), (m10, m11, m12), (m20, m21, m22))"
    by (metis prod_cases3)
  define w where "w = min (max ((m00 + m11 + m22 - 1) / 2) (- 1)) 1"
  have w: "- 1 \<le> w" "w \<le> 1" using clamp_range by (simp_all add: w_def)
  have cl: "fclamp (fdiv (fsub (fadd (fadd (Fin m00) (Fin m11)) (Fin m22)) (Fin 1)) (Fin 2)) (- 1) 1
        = Fin w"
    by (simp add: fsub_def w_def)
  have ac: "checked_acos (Fin w) = Inr (facos (Fin w))" using w by simp
  have "0 \<le> rnorm3 (m21 - m12, m02 - m20, m10 - m01)" by (rule rnorm3_nonneg)
  then have dv: "fadd (fnorm3 (fsub (Fin m21) (Fin m12), fsub (Fin m02) (Fin m20),
                          fsub (Fin m10) (Fin m01))) (Fin (1 / 10 ^ 8)) \<noteq> Fin 0"
    by (simp add: fsub_def fnorm3_Fin del: fnorm3.simps)
  show ?thesis
    unfolding M fin_mat.simps fin_vec.simps matrix_to_axis_angle_row_checked_def
      matrix_to_axis_angle_row_def prod.case Let_def cl ac sum.case checked_vdiv_eq
    using dv by (simp del: fnorm3.simps)
qed

text \<open>
  Claim C6. Both conversions run on every batch of numbers without a fault: on no vector of
  numbers does \<open>axis_angle_to_matrix\<close> divide by zero, and on no matrix of numbers,
  whatever its trace, does \<open>matrix_to_axis_angle\<close> call \<open>acos\<close> outside \<open>[-1, 1]\<close> or divide
  by zero; the recorded run of every row ends without a fault and with the value the
  conversion returns.
\<close>

theorem conversions_fault_free:
  "map axis_angle_to_matrix_row_checked (map fin_vec vs)
     = map Inr (axis_angle_to_matrix (map fin_vec vs))
   \<and> map matrix_to_axis_angle_row_checked (map fin_mat Ms)
     = map Inr (matrix_to_axis_angle (map fin_mat Ms))"
  by (simp add: axis_angle_to_matrix_def matrix_to_axis_angle_def a2m_row_fault_free
      m2a_row_fault_free)

text \<open>Without the clamp, and without the guard of the divisor, the run ends with a fault.\<close>

lemma acos_fault_without_clamp: "checked_acos (fdiv (fsub (Fin 7) (Fin 1)) (Fin 2)) = Inl AcosDomain"
  by (simp add: fsub_def)

lemma division_fault_without_guard:
  "checked_vdiv (Fin 0, Fin 0, Fin 0) (fnorm3 (Fin 0, Fin 0, Fin 0)) = Inl DivisionByZero"
  by (simp add: checked_div_def)

text \<open>
  Claim C9 does not hold for every input matrix: an infinite entry in the skew part makes
  the norm of the axis infinite, the quotient of the two infinities is NaN and the returned
  vector has a NaN entry and no norm.
\<close>

theorem infinite_matrix_gives_nan_vector:
  "matrix_to_axis_angle
     [((Fin (- 1), Fin 0, Fin 0), (Fin 0, Fin (- 1), NInf), (Fin 0, PInf, Fin (- 1)))]
     = [(NaN, Fin 0, Fin 0)]
   \<and> fnorm3 (NaN, Fin 0, Fin 0) = NaN"
proof -
  have "\<not> pi < 1 / 10 ^ 3" using pi_ge_two by simp
  then show ?thesis
    by (simp add: matrix_to_axis_angle_def matrix_to_axis_angle_row_def Let_def fsub_def
        zeros3_def)
qed

text \<open>
  Claim C9, amended. For every matrix of moderate numbers, a rotation matrix or not, the
  vector returned by \<open>matrix_to_axis_angle\<close> is a vector of numbers of Euclidean norm at most
  \<open>\<pi> + 1/100000\<close>. On numbers the bound is \<open>\<pi>\<close>; the margin is there for the rounding of the
  32-bit format, where \<open>acos (-1)\<close> is the nearest number above \<open>\<pi>\<close>.
\<close>

theorem matrix_to_axis_angle_norm_bound:
  assumes "list_all (\<lambda>M. list_all moderate (mat_entries M)) Ms"
  shows "\<exists>ws. matrix_to_axis_angle (map fin_mat Ms) = map fin_vec ws \<and> length ws = length Ms
         \<and> (\<forall>w \<in> set ws. rnorm3 w \<le> pi + 1 / 10 ^ 5)"
proof -
  have "rnorm3 (axis_angle_of M) \<le> pi + 1 / 10 ^ 5" for M
    using axis_angle_of_norm [of M] by simp
  then have "matrix_to_axis_angle (map fin_mat Ms) = map fin_vec (map axis_angle_of Ms)
         \<and> length (map axis_angle_of Ms) = length Ms
         \<and> (\<forall>w \<in> set (map axis_angle_of Ms). rnorm3 w \<le> pi + 1 / 10 ^ 5)"
    by (auto simp: m2a_batch_numeric)
  then show ?thesis by blast
qed

theorem matrix_to_axis_angle_norm_bound_witness:
  "\<exists>ws. matrix_to_axis_angle [fin_mat ((2, 0, 7), (0, 2, 0), (0, 0, - 9))] = map fin_vec ws
        \<and> length ws = 1 \<and> (\<forall>w \<in> set ws. rnorm3 w \<le> pi + 1 / 10 ^ 5)"
proof -
  have h: "list_all (\<lambda>M. list_all moderate (mat_entries M)) [((2, 0, 7), (0, 2, 0), (0, 0, - 9))]"
    by (simp add: moderate_def)
  from matrix_to_axis_angle_norm_bound [OF h] show ?thesis by simp
qed

section \<open>The returned blocks are rotations\<close>

lemma one_minus_cos_le: "1 - cos (a::real) \<le> a * a / 2"
proof -
  have "cos a = 1 - 2 * (sin (a / 2))\<^sup>2"
    using cos_double_sin [of "a / 2"] by simp
  then have eq: "1 - cos a = 2 * (sin (a / 2))\<^sup>2" by simp
  have "\<bar>sin (a / 2)\<bar> \<le> \<bar>a / 2\<bar>" by (rule abs_sin_x_le_abs_x)
  then have "(sin (a / 2))\<^sup>2 \<le> (a / 2)\<^sup>2"
    by (rule abs_le_square_iff [THEN iffD1])
  then show ?thesis unfolding eq by (simp add: power2_eq_square)
qed

lemma one_minus_cos_range: "0 \<le> 1 - cos (a::real)" "1 - cos a \<le> 2"
proof -
  show "0 \<le> 1 - cos a" by simp
  have "- 1 \<le> cos a" by simp
  then show "1 - cos a \<le> 2" by linarith
qed

lemma sin_sq_as_versine: "sin (a::real) * sin a = 2 * (1 - cos a) - (1 - cos a) * (1 - cos a)"
proof -
  have "sin a * sin a = 1 - cos a * cos a"
    using sin_cos_squared_add3 [of a] by linarith
  then show ?thesis by (simp add: algebra_simps)
qed

text \<open>The squared norm of the normalised axis.\<close>

lemma axis_sq_norm:
  fixes x y z :: real
  defines "a \<equiv> rnorm3 (x, y, z)"
  defines "d \<equiv> a + 1 / 10 ^ 8"
  shows "(x / d) * (x / d) + (y / d) * (y / d) + (z / d) * (z / d) = (a / d) * (a / d)"
proof -
  have "0 \<le> x * x + y * y + z * z" by (simp add: add_nonneg_nonneg)
  then have "a * a = x * x + y * y + z * z"
    by (simp add: a_def rnorm3_def)
  then show ?thesis by (simp add: add_divide_distrib [symmetric])
qed

lemma defect_bound:
  fixes a :: real
  assumes a0: "0 \<le> a"
  defines "d \<equiv> a + 1 / 10 ^ 8"
  defines "c \<equiv> 1 - cos a"
  defines "k \<equiv> c * c * (1 - (a / d) * (a / d))"
  shows "0 \<le> k" "k \<le> 1 / 10 ^ 7" "0 \<le> (a / d) * (a / d)" "(a / d) * (a / d) \<le> 1"
proof -
  define t where "t = a / d"
  have d0: "0 < d" using a0 by (simp add: d_def)
  have t0: "0 \<le> t" using a0 d0 by (simp add: t_def)
  have t1: "t \<le> 1" using a0 d0 by (simp add: t_def d_def)
  have omt: "1 - t = (1 / 10 ^ 8) / d"
    using d0 by (simp add: t_def d_def field_simps)
  show "0 \<le> (a / d) * (a / d)" by simp
  have tt1: "t * t \<le> 1 * 1" by (rule mult_mono) (use t0 t1 in simp_all)
  then show "(a / d) * (a / d) \<le> 1" by (simp add: t_def)
  have c0: "0 \<le> c" and c2: "c \<le> 2" using one_minus_cos_range [of a] by (simp_all add: c_def)
  have ca: "c \<le> a * a / 2" unfolding c_def by (rule one_minus_cos_le)
  have k: "k = c * c * ((1 - t) * (1 + t))"
    by (simp add: k_def t_def algebra_simps)
  have f0: "0 \<le> (1 - t) * (1 + t)" using t0 t1 by simp
  show "0 \<le> k" unfolding k using f0 by simp
  have f1: "(1 - t) * (1 + t) \<le> (1 - t) * 2"
    by (rule mult_left_mono) (use t0 t1 in simp_all)
  show "k \<le> 1 / 10 ^ 7"
  proof (cases "a \<le> 1")
    case True
    have "c * c \<le> 2 * (a * a / 2)"
      by (rule mult_mono) (use c0 c2 ca in simp_all)
    then have cc: "c * c \<le> a * a" by simp
    have "a * a * (1 - t) = a * (a * ((1 / 10 ^ 8) / d))"
      unfolding omt by simp
    also have "\<dots> = a * t * (1 / 10 ^ 8)"
      by (simp add: t_def)
    also have "\<dots> \<le> 1 * 1 * (1 / 10 ^ 8)"
      by (intro mult_mono) (use a0 t0 t1 True in simp_all)
    finally have at: "a * a * (1 - t) \<le> 1 / 10 ^ 8" by simp
    have "k \<le> (a * a) * ((1 - t) * 2)"
      unfolding k by (rule mult_mono) (use cc f1 f0 in simp_all)
    also have "\<dots> = 2 * (a * a * (1 - t))" by simp
    also have "\<dots> \<le> 2 * (1 / 10 ^ 8)" using at by simp
    finally show ?thesis by simp
  next
    case False
    then have "1 \<le> d" by (simp add: d_def)
    then have "(1 / 10 ^ 8) / d \<le> (1 / 10 ^ 8) / 1"
      by (intro divide_left_mono) simp_all
    then have omt1: "1 - t \<le> 1 / 10 ^ 8" unfolding omt by simp
    have cc: "c * c \<le> 2 * 2"
      by (rule mult_mono) (use c0 c2 in simp_all)
    have "k \<le> (2 * 2) * ((1 - t) * 2)"
      unfolding k by (rule mult_mono) (use cc f1 f0 in simp_all)
    also have "\<dots> \<le> (2 * 2) * ((1 / 10 ^ 8) * 2)"
      using omt1 by simp
    finally show ?thesis by simp
  qed
qed

lemma gram_rot_about:
  fixes p q r s c :: real
  assumes "s * s = 2 * c - c * c"
  defines "k \<equiv> c * c * (1 - (p * p + q * q + r * r))"
  shows "gram (rot_about s c (p, q, r)) =
     ((1 - k * (q * q + r * r), k * (p * q), k * (p * r)),
      (k * (p * q), 1 - k * (p * p + r * r), k * (q * r)),
      (k * (p * r), k * (q * r), 1 - k * (p * p + q * q)))"
proof -
  have e00: "(1 - c * (q * q + r * r)) * (1 - c * (q * q + r * r))
       + (c * (p * q) + s * r) * (c * (p * q) + s * r)
       + (c * (p * r) - s * q) * (c * (p * r) - s * q)
       = 1 - c * c * (1 - (p * p + q * q + r * r)) * (q * q + r * r)"
    using assms(1) by algebra
  have e11: "(c * (p * q) - s * r) * (c * (p * q) - s * r)
       + (1 - c * (p * p + r * r)) * (1 - c * (p * p + r * r))
       + (c * (q * r) + s * p) * (c * (q * r) + s * p)
       = 1 - c * c * (1 - (p * p + q * q + r * r)) * (p * p + r * r)"
    using assms(1) by algebra
  have e22: "(c * (p * r) + s * q) * (c * (p * r) + s * q)
       + (c * (q * r) - s * p) * (c * (q * r) - s * p)
       + (1 - c * (p * p + q * q)) * (1 - c * (p * p + q * q))
       = 1 - c * c * (1 - (p * p + q * q + r * r)) * (p * p + q * q)"
    using assms(1) by algebra
  have e01: "(1 - c * (q * q + r * r)) * (c * (p * q) - s * r)
       + (c * (p * q) + s * r) * (1 - c * (p * p + r * r))
       + (c * (p * r) - s * q) * (c * (q * r) + s * p)
       = c * c * (1 - (p * p + q * q + r * r)) * (p * q)"
    using assms(1) by algebra
  have e02: "(1 - c * (q * q + r * r)) * (c * (p * r) + s * q)
       + (c * (p * q) + s * r) * (c * (q * r) - s * p)
       + (c * (p * r) - s * q) * (1 - c * (p * p + q * q))
       = c * c * (1 - (p * p + q * q + r * r)) * (p * r)"
    using assms(1) by algebra
  have e12: "(c * (p * q) - s * r) * (c * (p * r) + s * q)
       + (1 - c * (p * p + r * r)) * (c * (q * r) - s * p)
       + (c * (q * r) + s * p) * (1 - c * (p * p + q * q))
       = c * c * (1 - (p * p + q * q + r * r)) * (q * r)"
    using assms(1) by algebra
  have e10: "(c * (p * q) - s * r) * (1 - c * (q * q + r * r))
       + (1 - c * (p * p + r * r)) * (c * (p * q) + s * r)
       + (c * (q * r) + s * p) * (c * (p * r) - s * q)
       = c * c * (1 - (p * p + q * q + r * r)) * (p * q)"
    using e01 by (simp add: mult.commute)
  have e20: "(c * (p * r) + s * q) * (1 - c * (q * q + r * r))
       + (c * (q * r) - s * p) * (c * (p * q) + s * r)
       + (1 - c * (p * p + q * q)) * (c * (p * r) - s * q)
       = c * c * (1 - (p * p + q * q + r * r)) * (p * r)"
    using e02 by (simp add: mult.commute)
  have e21: "(c * (p * r) + s * q) * (c * (p * q) - s * r)
       + (c * (q * r) - s * p) * (1 - c * (p * p + r * r))
       + (1 - c * (p * p + q * q)) * (c * (q * r) + s * p)
       = c * c * (1 - (p * p + q * q + r * r)) * (q * r)"
    using e12 by (simp add: mult.commute)
  show ?thesis
    unfolding rot_about_def prod.case gram.simps k_def
    by (simp only: e00 e11 e22 e01 e02 e12 e10 e20 e21)
qed

lemma det_rot_about:
  fixes p q r s c :: real
  assumes "s * s = 2 * c - c * c"
  shows "det3 (rot_about s c (p, q, r)) =
     1 - c * c * (1 - (p * p + q * q + r * r)) * (p * p + q * q + r * r)"
proof -
  have "(1 - c * (q * q + r * r)) * ((1 - c * (p * p + r * r)) * (1 - c * (p * p + q * q)) - (c * (q * r) - s * p) * (c * (q * r) + s * p))
       - (c * (p * q) - s * r) * ((c * (p * q) + s * r) * (1 - c * (p * p + q * q)) - (c * (q * r) - s * p) * (c * (p * r) - s * q))
       + (c * (p * r) + s * q) * ((c * (p * q) + s * r) * (c * (q * r) + s * p) - (1 - c * (p * p + r * r)) * (c * (p * r) - s * q))
       = 1 - c * c * (1 - (p * p + q * q + r * r)) * (p * p + q * q + r * r)"
    using assms by algebra
  then show ?thesis
    unfolding rot_about_def prod.case det3.simps .
qed

lemma abs_prod_le_squares:
  fixes p q :: real
  shows "\<bar>p * q\<bar> \<le> p * p + q * q"
proof -
  have "0 \<le> (\<bar>p\<bar> - \<bar>q\<bar>) * (\<bar>p\<bar> - \<bar>q\<bar>)" by simp
  then have "2 * (\<bar>p\<bar> * \<bar>q\<bar>) \<le> \<bar>p\<bar> * \<bar>p\<bar> + \<bar>q\<bar> * \<bar>q\<bar>"
    by (simp add: algebra_simps)
  then have "2 * \<bar>p * q\<bar> \<le> p * p + q * q"
    by (simp add: abs_mult)
  moreover have "0 \<le> \<bar>p * q\<bar>" by simp
  ultimately show ?thesis by linarith
qed

lemma scaled_part_le:
  fixes k m n tol :: real
  assumes "0 \<le> k" "k \<le> tol" "\<bar>m\<bar> \<le> n" "n \<le> 1"
  shows "\<bar>k * m\<bar> \<le> tol"
proof -
  have "\<bar>k * m\<bar> = k * \<bar>m\<bar>" using assms(1) by (simp add: abs_mult)
  also have "\<dots> \<le> k * 1"
    by (rule mult_left_mono) (use assms in simp_all)
  finally show ?thesis using assms(2) by simp
qed

lemma near_rotation_generic:
  fixes p q r k tol :: real
  assumes k: "0 \<le> k" "k \<le> tol" and n: "p * p + q * q + r * r \<le> 1"
  shows "near_mat tol
     ((1 - k * (q * q + r * r), k * (p * q), k * (p * r)),
      (k * (p * q), 1 - k * (p * p + r * r), k * (q * r)),
      (k * (p * r), k * (q * r), 1 - k * (p * p + q * q))) ident3"
proof -
  let ?n = "p * p + q * q + r * r"
  have sq: "0 \<le> p * p" "0 \<le> q * q" "0 \<le> r * r" by simp_all
  have d0: "\<bar>q * q + r * r\<bar> \<le> ?n" using sq by simp
  have d1: "\<bar>p * p + r * r\<bar> \<le> ?n" using sq by simp
  have d2: "\<bar>p * p + q * q\<bar> \<le> ?n" using sq by simp
  have o01: "\<bar>p * q\<bar> \<le> ?n" using abs_prod_le_squares [of p q] sq by linarith
  have o02: "\<bar>p * r\<bar> \<le> ?n" using abs_prod_le_squares [of p r] sq by linarith
  have o12: "\<bar>q * r\<bar> \<le> ?n" using abs_prod_le_squares [of q r] sq by linarith
  note b = scaled_part_le [OF k _ n]
  show ?thesis
    using b [OF d0] b [OF d1] b [OF d2] b [OF o01] b [OF o02] b [OF o12]
    by (simp add: near_mat_def ident3_def)
qed

lemma rodrigues_near_rotation:
  "near_mat (1 / 10 ^ 5) (gram (rodrigues v)) ident3 \<and> \<bar>det3 (rodrigues v) - 1\<bar> \<le> 1 / 10 ^ 5"
proof -
  obtain x y z where v: "v = (x, y, z)" by (metis prod_cases3)
  define a where "a = rnorm3 (x, y, z)"
  define d where "d = a + 1 / 10 ^ 8"
  define c where "c = 1 - cos a"
  define n2 where "n2 = (x / d) * (x / d) + (y / d) * (y / d) + (z / d) * (z / d)"
  define k where "k = c * c * (1 - n2)"
  have a0: "0 \<le> a" by (simp add: a_def rnorm3_nonneg)
  have n2: "n2 = (a / d) * (a / d)"
    unfolding n2_def d_def a_def by (rule axis_sq_norm)
  note db = defect_bound [OF a0, folded d_def c_def, folded n2, folded k_def]
  have k0: "0 \<le> k" and k7: "k \<le> 1 / 10 ^ 7" and n20: "0 \<le> n2" and n21: "n2 \<le> 1"
    using db by simp_all
  have k5: "k \<le> 1 / 10 ^ 5" using k7 by simp
  have ss: "sin a * sin a = 2 * c - c * c"
    unfolding c_def by (rule sin_sq_as_versine)
  have rod: "rodrigues v = rot_about (sin a) c (x / d, y / d, z / d)"
    by (simp add: rodrigues_def v a_def d_def c_def Let_def)
  have g: "near_mat (1 / 10 ^ 5) (gram (rodrigues v)) ident3"
    unfolding rod gram_rot_about [OF ss] n2_def [symmetric] k_def [symmetric]
    by (rule near_rotation_generic [OF k0 k5]) (use n21 in \<open>simp add: n2_def\<close>)
  have "det3 (rodrigues v) - 1 = - (k * n2)"
    unfolding rod det_rot_about [OF ss] n2_def [symmetric] k_def [symmetric] by simp
  moreover have "\<bar>k * n2\<bar> \<le> 1 / 10 ^ 5"
    by (rule scaled_part_le [OF k0 k5, of n2 n2]) (use n20 n21 in simp_all)
  ultimately have dt: "\<bar>det3 (rodrigues v) - 1\<bar> \<le> 1 / 10 ^ 5" by simp
  from g dt show ?thesis ..
qed

lemma ident3_rotation:
  "near_mat (1 / 10 ^ 5) (gram ident3) ident3 \<and> \<bar>det3 ident3 - 1\<bar> \<le> 1 / 10 ^ 5"
  by (simp add: ident3_def near_mat_def)

lemma row_is_rotation:
  "\<exists>M. axis_angle_to_matrix_row (fin_vec v) = fin_mat M
       \<and> near_mat (1 / 10 ^ 5) (gram M) ident3 \<and> \<bar>det3 M - 1\<bar> \<le> 1 / 10 ^ 5"
proof (cases "rnorm3 v < 1 / 10 ^ 3")
  case True
  then have "axis_angle_to_matrix_row (fin_vec v) = fin_mat ident3"
    by (simp only: row_numeric_vec eye3_fin if_True)
  with ident3_rotation show ?thesis by blast
next
  case False
  then have "axis_angle_to_matrix_row (fin_vec v) = fin_mat (rodrigues v)"
    by (simp only: row_numeric_vec if_False)
  with rodrigues_near_rotation show ?thesis by blast
qed

lemma row_infinite: "axis_angle_to_matrix_row (PInf, Fin 0, Fin 0) = nan_block"
  by (simp add: axis_angle_to_matrix_row_def Let_def nan_block_def eye3_def fsub_def
      inf_times_def)

text \<open>
  Claim C2 does not hold for every input vector: for an infinite entry the angle is
  infinite, its sine and cosine are NaN and the returned block is NaN throughout.
\<close>

theorem infinite_vector_gives_nan_block:
  "axis_angle_to_matrix [(PInf, Fin 0, Fin 0)] = [nan_block]"
  by (simp add: axis_angle_to_matrix_def row_infinite)

text \<open>
  Claim C2, amended. For every vector of numbers of norm at most \<open>10\<^sup>1\<^sup>8\<close> the block \<open>R\<close> returned
  by \<open>axis_angle_to_matrix\<close> is a matrix of numbers with \<open>R\<^sup>T R\<close> within \<open>1/100000\<close> of the
  identity, entry by entry, and with determinant within \<open>1/100000\<close> of one. The axis is
  divided by \<open>angle + 1e-8\<close>, not by \<open>angle\<close>, so the block is not exactly orthonormal:
  \<open>R\<^sup>T R - I = c\<^sup>2 (1 - n\<^sup>2) K\<^sup>2\<close> for the versine \<open>c\<close> and the squared norm \<open>n\<^sup>2\<close> of the axis.
\<close>

theorem moderate_vectors_give_rotations:
  assumes "list_all (\<lambda>v. moderate (rnorm3 v)) vs"
  shows "\<forall>R \<in> set (axis_angle_to_matrix (map fin_vec vs)).
     \<exists>M. R = fin_mat M \<and> near_mat (1 / 10 ^ 5) (gram M) ident3
          \<and> \<bar>det3 M - 1\<bar> \<le> 1 / 10 ^ 5"
  using row_is_rotation by (auto simp: axis_angle_to_matrix_def)

theorem moderate_vectors_give_rotations_witness:
  "\<exists>M. axis_angle_to_matrix (map fin_vec [(0, 0, 0), (0, 0, 2)]) ! 1 = fin_mat M
       \<and> near_mat (1 / 10 ^ 5) (gram M) ident3 \<and> \<bar>det3 M - 1\<bar> \<le> 1 / 10 ^ 5"
proof -
  let ?vs = "[(0, 0, 0), (0, 0, 2)] :: rvec3 list"
  let ?Rs = "axis_angle_to_matrix (map fin_vec ?vs)"
  have h: "list_all (\<lambda>v. moderate (rnorm3 v)) ?vs"
    by (simp add: moderate_def rnorm3_def)
  have "length ?Rs = 2" by (simp add: axis_angle_to_matrix_def)
  then have "?Rs ! 1 \<in> set ?Rs" by (intro nth_mem) simp
  with moderate_vectors_give_rotations [OF h]
  show ?thesis by blast
qed

section \<open>Broadcasting and reshaping on rectangular tensors\<close>

lemma collect_map_Inr: "collect (map Inr zs) = Inr zs"
  by (induction zs) simp_all

lemma collect_Inr_iff: "collect rs = Inr zs \<longleftrightarrow> rs = map Inr zs"
proof (induction rs arbitrary: zs)
  case Nil
  show ?case by auto
next
  case (Cons r rs)
  show ?case
  proof (cases r)
    case (Inl e)
    then show ?thesis by auto
  next
    case (Inr x)
    show ?thesis
    proof (cases "collect rs")
      case (Inl e)
      with Cons [of "tl zs"] Inr show ?thesis by (cases zs) auto
    next
      case r: (Inr xs)
      with Cons [of xs] have "rs = map Inr xs" by simp
      with Inr r show ?thesis by (cases zs) (auto simp: collect_map_Inr)
    qed
  qed
qed

lemma broadcast2_same:
  assumes "length xs = length ys"
    and "\<And>i. i < length xs \<Longrightarrow> f (xs ! i) (ys ! i) = Inr (g (xs ! i) (ys ! i))"
  shows "broadcast2 f xs ys = Inr (map2 g xs ys)"
proof -
  have "map2 f xs ys = map Inr (map2 g xs ys)"
    by (rule nth_equalityI) (use assms in simp_all)
  then have "collect (map2 f xs ys) = Inr (map2 g xs ys)"
    by (simp only: collect_map_Inr)
  with assms(1) show ?thesis
    by (simp add: broadcast2_def)
qed

lemma broadcast2_single:
  assumes "\<And>i. i < length xs \<Longrightarrow> f (xs ! i) y = Inr (g (xs ! i) y)"
  shows "broadcast2 f xs [y] = Inr (map (\<lambda>x. g x y) xs)"
proof (cases "length xs = 1")
  case True
  then obtain x where xs: "xs = [x]" by (cases xs) auto
  with assms [of 0] show ?thesis
    by (simp add: broadcast2_def)
next
  case False
  have "map (\<lambda>x. f x y) xs = map Inr (map (\<lambda>x. g x y) xs)"
    by (rule nth_equalityI) (use assms in simp_all)
  then have "collect (map (\<lambda>x. f x y) xs) = Inr (map (\<lambda>x. g x y) xs)"
    by (simp only: collect_map_Inr)
  with False show ?thesis
    by (simp add: broadcast2_def)
qed

text \<open>Every result of a broadcast operator comes from one entry of each operand.\<close>

lemma broadcast2_members:
  assumes "broadcast2 f xs ys = Inr zs" and "z \<in> set zs"
  shows "\<exists>x \<in> set xs. \<exists>y \<in> set ys. f x y = Inr z"
proof -
  have mem: "Inr z \<in> set rs" if "collect rs = Inr zs" for rs
    using that assms(2) by (auto simp: collect_Inr_iff)
  consider (same) "length xs = length ys" "collect (map2 f xs ys) = Inr zs"
    | (left) "length xs = 1" "collect (map (f (hd xs)) ys) = Inr zs"
    | (right) "length ys = 1" "collect (map (\<lambda>x. f x (hd ys)) xs) = Inr zs"
    using assms(1) by (auto simp: broadcast2_def split: if_splits)
  then show ?thesis
  proof cases
    case same
    from mem [OF same(2)] obtain x y where "(x, y) \<in> set (zip xs ys)" "f x y = Inr z"
      by auto
    then show ?thesis by (auto dest: set_zip_leftD set_zip_rightD)
  next
    case left
    then obtain x where "xs = [x]" by (cases xs) auto
    with mem [OF left(2)] show ?thesis by auto
  next
    case right
    then obtain y where "ys = [y]" by (cases ys) auto
    with mem [OF right(2)] show ?thesis by auto
  qed
qed

lemma triples_nth:
  "length xs = 3 * J \<Longrightarrow>
     length (triples xs) = J
     \<and> (\<forall>j < J. triples xs ! j = (xs ! (3 * j), xs ! (3 * j + 1), xs ! (3 * j + 2)))"
proof (induction xs arbitrary: J rule: triples.induct)
  case (1 x y z rest)
  then obtain J' where J: "J = Suc J'" by (cases J) auto
  with 1 have len: "length rest = 3 * J'" by simp
  note ih = "1.IH" [OF len]
  show ?case
  proof (intro conjI allI impI)
    show "length (triples (x # y # z # rest)) = J" using ih J by simp
    fix j assume "j < J"
    show "triples (x # y # z # rest) ! j =
            ((x # y # z # rest) ! (3 * j), (x # y # z # rest) ! (3 * j + 1),
             (x # y # z # rest) ! (3 * j + 2))"
    proof (cases j)
      case 0
      then show ?thesis by simp
    next
      case (Suc j')
      with \<open>j < J\<close> J have "j' < J'" by simp
      with ih have "triples rest ! j' = (rest ! (3 * j'), rest ! (3 * j' + 1), rest ! (3 * j' + 2))"
        by blast
      moreover have "3 * j = Suc (Suc (Suc (3 * j')))" using Suc by simp
      ultimately show ?thesis using Suc by simp
    qed
  qed
qed auto

lemma concat_block:
  assumes "\<forall>row \<in> set t. length row = k" and "b < length t"
  shows "take k (drop (b * k) (concat t)) = t ! b"
  using assms
proof (induction t arbitrary: b)
  case Nil
  then show ?case by simp
next
  case (Cons row t)
  show ?case
  proof (cases b)
    case 0
    with Cons.prems show ?thesis by simp
  next
    case (Suc b')
    with Cons.prems have "take k (drop (b' * k) (concat t)) = t ! b'"
      by (intro Cons.IH) auto
    moreover have "length row = k" using Cons.prems by simp
    ultimately show ?thesis using Suc by (simp add: drop_append)
  qed
qed

lemma length_concat_rect:
  "\<forall>row \<in> set t. length row = k \<Longrightarrow> length (concat t) = length t * k"
  by (induction t) simp_all

lemma view_b3_rect:
  assumes B: "0 < length t" and rows: "\<forall>row \<in> set t. length row = 3 * J"
  shows "view_b3 (length t) t = Inr (map triples t)"
proof -
  let ?B = "length t"
  have n: "length (concat t) = ?B * (3 * J)" by (rule length_concat_rect [OF rows])
  have dv: "length (concat t) div ?B = 3 * J" using B n by simp
  have md: "length (concat t) mod (?B * 3) = 0" using n by simp
  have "map (\<lambda>b. triples (take (3 * J) (drop (b * (3 * J)) (concat t)))) [0..<?B] = map triples t"
    by (rule nth_equalityI) (simp_all add: concat_block [OF rows])
  then show ?thesis
    using B by (simp add: view_b3_def Let_def dv md)
qed

section \<open>\<open>PoseLoss\<close> on tensors of the documented shapes\<close>

lemma broadcast2_nested_same:
  assumes "length X = length Y"
    and "\<And>i. i < length X \<Longrightarrow> length (X ! i) = length (Y ! i)"
  shows "broadcast2 (broadcast2 (\<lambda>a b. Inr (g a b))) X Y = Inr (map2 (map2 g) X Y)"
  by (rule broadcast2_same [OF assms(1)]) (rule broadcast2_same, rule assms(2), simp_all)

lemma rect2_nth: "rect2 B J t \<Longrightarrow> b < B \<Longrightarrow> length (t ! b) = J"
  by (simp add: rect2_def list_all_length)

lemma rect2_rows: "rect2 B J t \<Longrightarrow> \<forall>row \<in> set t. length row = J"
  by (simp add: rect2_def list_all_iff)

lemma rect2_length: "rect2 B J t \<Longrightarrow> length t = B"
  by (simp add: rect2_def)

lemma PoseLoss_rect:
  assumes B: "0 < length P"
    and P: "rect2 (length P) (3 * J) P" and G: "rect2 (length P) (3 * J) G"
    and M: "rect2 (length P) J M"
  shows "PoseLoss P G M =
     Inr (map2 (map2 mtimes)
            (map (map mabs)
               (map2 (map2 msub) (map (map axis_angle_to_matrix_row) (map triples P))
                                 (map (map axis_angle_to_matrix_row) (map triples G)))) M)"
proof -
  let ?B = "length P"
  have lG: "length G = ?B" and lM: "length M = ?B"
    using G M by (simp_all add: rect2_def)
  have vP: "view_b3 ?B P = Inr (map triples P)"
    by (rule view_b3_rect [OF B rect2_rows [OF P]])
  have vG: "view_b3 ?B G = Inr (map triples G)"
    using view_b3_rect [of G J] B rect2_rows [OF G] lG by simp
  have lt: "length (triples (P ! b)) = J" "length (triples (G ! b)) = J" if "b < ?B" for b
    using triples_nth [of "P ! b" J] triples_nth [of "G ! b" J]
      rect2_nth [OF P that] rect2_nth [OF G that] by simp_all
  let ?ro = "map (map axis_angle_to_matrix_row) (map triples P)"
  let ?rg = "map (map axis_angle_to_matrix_row) (map triples G)"
  have d: "broadcast2 (broadcast2 (\<lambda>a b. Inr (msub a b))) ?ro ?rg
             = Inr (map2 (map2 msub) ?ro ?rg)"
    by (rule broadcast2_nested_same) (simp_all add: lG lt)
  let ?diff = "map (map mabs) (map2 (map2 msub) ?ro ?rg)"
  have o: "broadcast2 (broadcast2 (\<lambda>m v. Inr (mtimes m v))) ?diff M
             = Inr (map2 (map2 mtimes) ?diff M)"
    by (rule broadcast2_nested_same) (simp_all add: lG lM lt rect2_nth [OF M])
  show ?thesis
    unfolding PoseLoss_def Let_def vP vG sum.case axis_angle_to_matrix_bn_def
      axis_angle_to_matrix_def d o ..
qed

lemma PoseLoss_rect_nth:
  assumes B: "0 < length P"
    and P: "rect2 (length P) (3 * J) P" and G: "rect2 (length P) (3 * J) G"
    and M: "rect2 (length P) J M"
  shows "\<exists>loss. PoseLoss P G M = Inr loss \<and> rect2 (length P) J loss
     \<and> (\<forall>b < length P. \<forall>j < J. loss ! b ! j =
           mtimes (mabs (msub (axis_angle_to_matrix_row (joint_pose (P ! b) j))
                              (axis_angle_to_matrix_row (joint_pose (G ! b) j))))
                  (M ! b ! j))"
proof -
  let ?B = "length P"
  let ?loss = "map2 (map2 mtimes)
            (map (map mabs)
               (map2 (map2 msub) (map (map axis_angle_to_matrix_row) (map triples P))
                                 (map (map axis_angle_to_matrix_row) (map triples G)))) M"
  have lG: "length G = ?B" and lM: "length M = ?B"
    using G M by (simp_all add: rect2_def)
  have tr: "length (triples (P ! b)) = J \<and> length (triples (G ! b)) = J
      \<and> (\<forall>j < J. triples (P ! b) ! j = joint_pose (P ! b) j
                 \<and> triples (G ! b) ! j = joint_pose (G ! b) j)" if "b < ?B" for b
    using triples_nth [of "P ! b" J] triples_nth [of "G ! b" J]
      rect2_nth [OF P that] rect2_nth [OF G that] by (simp add: joint_pose_def)
  have len: "length ?loss = ?B" by (simp add: lG lM)
  have row: "length (?loss ! b) = J" if "b < ?B" for b
    using that tr [OF that] rect2_nth [OF M that] by (simp add: lG lM)
  have r2: "rect2 ?B J ?loss"
    unfolding rect2_def list_all_length using len row by simp
  have nth: "?loss ! b ! j =
           mtimes (mabs (msub (axis_angle_to_matrix_row (joint_pose (P ! b) j))
                              (axis_angle_to_matrix_row (joint_pose (G ! b) j))))
                  (M ! b ! j)" if "b < ?B" "j < J" for b j
    using that tr [OF that(1)] rect2_nth [OF M that(1)] by (simp add: lG lM)
  from PoseLoss_rect [OF assms] r2 nth show ?thesis by blast
qed

section \<open>Properties of \<open>PoseLoss\<close>\<close>

lemma fabs_not_negative: "\<not> fless (fabs a) (Fin 0)"
  by (cases a) simp_all

lemma fmul_not_negative:
  "\<not> fless a (Fin 0) \<Longrightarrow> \<not> fless m (Fin 0) \<Longrightarrow> \<not> fless (fmul a m) (Fin 0)"
  by (cases a; cases m) (auto simp: inf_times_def mult_less_0_iff)

lemma block_not_negative:
  assumes "\<not> fless m (Fin 0)" and "e \<in> set (mat3_entries (mtimes (mabs D) m))"
  shows "\<not> fless e (Fin 0)"
proof -
  obtain d00 d01 d02 d10 d11 d12 d20 d21 d22
    where D: "D = ((d00, d01, d02), (d10, d11, d12), (d20, d21, d22))"
    by (metis prod_cases3)
  from assms(2) obtain d where "e = fmul (fabs d) m"
    unfolding D by auto
  with fmul_not_negative [OF fabs_not_negative assms(1)] show ?thesis by simp
qed

lemma block_masked_zero:
  "mtimes (mabs (msub (fin_mat A) (fin_mat B))) (Fin 0) = zero_block"
proof -
  obtain a00 a01 a02 a10 a11 a12 a20 a21 a22
    where A: "A = ((a00, a01, a02), (a10, a11, a12), (a20, a21, a22))"
    by (metis prod_cases3)
  obtain b00 b01 b02 b10 b11 b12 b20 b21 b22
    where B: "B = ((b00, b01, b02), (b10, b11, b12), (b20, b21, b22))"
    by (metis prod_cases3)
  show ?thesis unfolding A B by (simp add: zero_block_def fsub_def)
qed

lemma block_same_zero:
  "mtimes (mabs (msub (fin_mat A) (fin_mat A))) (Fin m) = zero_block"
proof -
  obtain a00 a01 a02 a10 a11 a12 a20 a21 a22
    where A: "A = ((a00, a01, a02), (a10, a11, a12), (a20, a21, a22))"
    by (metis prod_cases3)
  show ?thesis unfolding A by (simp add: zero_block_def fsub_def)
qed

lemma fadd_NaN_right: "fadd a NaN = NaN"
  by (cases a) simp_all

lemma fmul_NaN_right: "fmul a NaN = NaN"
  by (cases a) simp_all

lemma fdiv_NaN_right: "fdiv a NaN = NaN"
  by (cases a) simp_all

lemma fnorm3_NaN:
  "x = NaN \<or> y = NaN \<or> z = NaN \<Longrightarrow> fnorm3 (x, y, z) = NaN"
  by (auto simp: fadd_NaN_right fmul_NaN_right)

lemma row_NaN:
  assumes "x = NaN \<or> y = NaN \<or> z = NaN"
  shows "axis_angle_to_matrix_row (x, y, z) = nan_block"
  unfolding axis_angle_to_matrix_row_def fnorm3_NaN [OF assms] Let_def
  by (simp add: nan_block_def eye3_def fadd_NaN_right fmul_NaN_right fdiv_NaN_right fsub_def)

lemma block_NaN_left: "mtimes (mabs (msub nan_block B)) m = nan_block"
proof -
  obtain b00 b01 b02 b10 b11 b12 b20 b21 b22
    where B: "B = ((b00, b01, b02), (b10, b11, b12), (b20, b21, b22))"
    by (metis prod_cases3)
  show ?thesis unfolding B by (simp add: nan_block_def fsub_def)
qed

lemma block_NaN_right: "mtimes (mabs (msub A nan_block)) m = nan_block"
proof -
  obtain a00 a01 a02 a10 a11 a12 a20 a21 a22
    where A: "A = ((a00, a01, a02), (a10, a11, a12), (a20, a21, a22))"
    by (metis prod_cases3)
  show ?thesis unfolding A by (simp add: nan_block_def fsub_def fadd_NaN_right)
qed

lemma is_fin_vec: "list_all is_fin (vec3_entries v) \<Longrightarrow> \<exists>w. v = fin_vec w"
proof -
  assume a: "list_all is_fin (vec3_entries v)"
  obtain x y z where v: "v = (x, y, z)" by (metis prod_cases3)
  from a obtain x' y' z' where "x = Fin x'" "y = Fin y'" "z = Fin z'"
    unfolding v by (cases x; cases y; cases z) auto
  then have "v = fin_vec (x', y', z')" by (simp add: v)
  then show ?thesis ..
qed

lemma moderate_entry_is_fin: "moderate_entry a \<Longrightarrow> is_fin a"
  by (cases a) simp_all

lemma moderate_entries_fin: "list_all moderate_entry xs \<Longrightarrow> list_all is_fin xs"
  by (induction xs) (simp_all add: moderate_entry_is_fin)

lemma PoseLoss_single:
  "PoseLoss [[x, y, z]] [[x', y', z']] [[m]] =
     Inr [[mtimes (mabs (msub (axis_angle_to_matrix_row (x, y, z))
                              (axis_angle_to_matrix_row (x', y', z')))) m]]"
proof -
  have h: "0 < length [[x, y, z]]" "rect2 (length [[x, y, z]]) (3 * 1) [[x, y, z]]"
    "rect2 (length [[x, y, z]]) (3 * 1) [[x', y', z']]" "rect2 (length [[x, y, z]]) 1 [[m]]"
    by (simp_all add: rect2_def)
  show ?thesis unfolding PoseLoss_rect [OF h] by simp
qed

lemma row_zero: "axis_angle_to_matrix_row (Fin 0, Fin 0, Fin 0) = eye3"
  using row_numeric [of 0 0 0] by (simp add: rnorm3_def)

lemma row_quarter_turn:
  "axis_angle_to_matrix_row (Fin 0, Fin 0, Fin (pi / 2)) =
     fin_mat ((1 - (pi / 2 / (pi / 2 + 1 / 10 ^ 8)) * (pi / 2 / (pi / 2 + 1 / 10 ^ 8)),
               - (pi / 2 / (pi / 2 + 1 / 10 ^ 8)), 0),
              (pi / 2 / (pi / 2 + 1 / 10 ^ 8),
               1 - (pi / 2 / (pi / 2 + 1 / 10 ^ 8)) * (pi / 2 / (pi / 2 + 1 / 10 ^ 8)), 0),
              (0, 0, 1))"
proof -
  have nrm: "rnorm3 (0, 0, pi / 2) = pi / 2"
    using pi_ge_two by (simp add: rnorm3_def)
  have big: "\<not> rnorm3 (0, 0, pi / 2) < 1 / 10 ^ 3"
    unfolding nrm using pi_ge_two by simp
  have rod: "rodrigues (0, 0, pi / 2) =
      ((1 - (pi / 2 / (pi / 2 + 1 / 10 ^ 8)) * (pi / 2 / (pi / 2 + 1 / 10 ^ 8)),
               - (pi / 2 / (pi / 2 + 1 / 10 ^ 8)), 0),
              (pi / 2 / (pi / 2 + 1 / 10 ^ 8),
               1 - (pi / 2 / (pi / 2 + 1 / 10 ^ 8)) * (pi / 2 / (pi / 2 + 1 / 10 ^ 8)), 0),
              (0, 0, 1))"
    unfolding rodrigues_def prod.case nrm Let_def by (simp add: rot_about_def)
  show ?thesis
    using row_numeric [of 0 0 "pi / 2"] big by (simp only: if_False rod)
qed

text \<open>
  Claim C5 does not hold as stated. An infinite entry of a pose, which is not NaN, gives
  the NaN block under mask zero; and with the entry \<open>-1\<close> in the mask the block of a joint
  whose poses differ has a negative entry.
\<close>

theorem PoseLoss_mask_counterexample:
  "PoseLoss [[PInf, Fin 0, Fin 0]] [[Fin 0, Fin 0, Fin 0]] [[Fin 0]] = Inr [[nan_block]]
   \<and> PoseLoss [[Fin 0, Fin 0, Fin (pi / 2)]] [[Fin 0, Fin 0, Fin 0]] [[Fin (- 1)]]
       = Inr [[mtimes (mabs (msub (axis_angle_to_matrix_row (Fin 0, Fin 0, Fin (pi / 2)))
                                  (axis_angle_to_matrix_row (Fin 0, Fin 0, Fin 0))))
                 (Fin (- 1))]]
   \<and> fless (mat3_entries
               (mtimes (mabs (msub (axis_angle_to_matrix_row (Fin 0, Fin 0, Fin (pi / 2)))
                                   (axis_angle_to_matrix_row (Fin 0, Fin 0, Fin 0))))
                  (Fin (- 1))) ! 3) (Fin 0)"
proof -
  have a: "PoseLoss [[PInf, Fin 0, Fin 0]] [[Fin 0, Fin 0, Fin 0]] [[Fin 0]] = Inr [[nan_block]]"
    unfolding PoseLoss_single row_infinite block_NaN_left ..
  have pos: "0 < pi / 2 / (pi / 2 + 1 / 10 ^ 8)"
  proof (rule divide_pos_pos)
    show "0 < pi / 2" by simp
    have "0 < pi / 2" by simp
    then show "0 < pi / 2 + 1 / 10 ^ 8" by (rule add_pos_pos) simp
  qed
  have c: "fless (mat3_entries
               (mtimes (mabs (msub (axis_angle_to_matrix_row (Fin 0, Fin 0, Fin (pi / 2)))
                                   (axis_angle_to_matrix_row (Fin 0, Fin 0, Fin 0))))
                  (Fin (- 1))) ! 3) (Fin 0)"
    unfolding row_quarter_turn row_zero using pos by (simp add: eye3_def fsub_def)
  from a c show ?thesis by (simp only: PoseLoss_single simp_thms)
qed

text \<open>
  Claim C5, amended. For poses of shape \<open>(B, J * 3)\<close> and a mask of shape \<open>(B, J)\<close>, \<open>PoseLoss\<close>
  returns a tensor of shape \<open>(B, J, 3, 3)\<close>. No entry of the block of a joint is negative when
  the entry of the mask is not negative. A joint with mask zero whose pose entries are
  moderate numbers contributes the zero block, whatever the numbers are. A NaN among the
  pose entries of a joint, predicted or ground truth, makes its whole block NaN, also
  under mask zero.
\<close>

theorem PoseLoss_masked_joints:
  assumes "0 < length P"
    and "rect2 (length P) (3 * J) P" and "rect2 (length P) (3 * J) G"
    and "rect2 (length P) J M"
  shows "\<exists>loss. PoseLoss P G M = Inr loss \<and> rect2 (length P) J loss
     \<and> (\<forall>b < length P. \<forall>j < J.
          (\<not> fless (M ! b ! j) (Fin 0) \<longrightarrow>
             (\<forall>e \<in> set (mat3_entries (loss ! b ! j)). \<not> fless e (Fin 0)))
        \<and> (M ! b ! j = Fin 0
              \<and> list_all moderate_entry (vec3_entries (joint_pose (P ! b) j))
              \<and> list_all moderate_entry (vec3_entries (joint_pose (G ! b) j)) \<longrightarrow>
             loss ! b ! j = zero_block)
        \<and> (NaN \<in> set (vec3_entries (joint_pose (P ! b) j))
              \<or> NaN \<in> set (vec3_entries (joint_pose (G ! b) j)) \<longrightarrow>
             loss ! b ! j = nan_block))"
proof -
  from PoseLoss_rect_nth [OF assms] obtain loss
    where ret: "PoseLoss P G M = Inr loss" and shape: "rect2 (length P) J loss"
      and nth: "\<And>b j. b < length P \<Longrightarrow> j < J \<Longrightarrow> loss ! b ! j =
           mtimes (mabs (msub (axis_angle_to_matrix_row (joint_pose (P ! b) j))
                              (axis_angle_to_matrix_row (joint_pose (G ! b) j))))
                  (M ! b ! j)"
    by blast
  have "(\<not> fless (M ! b ! j) (Fin 0) \<longrightarrow>
             (\<forall>e \<in> set (mat3_entries (loss ! b ! j)). \<not> fless e (Fin 0)))
        \<and> (M ! b ! j = Fin 0
              \<and> list_all moderate_entry (vec3_entries (joint_pose (P ! b) j))
              \<and> list_all moderate_entry (vec3_entries (joint_pose (G ! b) j)) \<longrightarrow>
             loss ! b ! j = zero_block)
        \<and> (NaN \<in> set (vec3_entries (joint_pose (P ! b) j))
              \<or> NaN \<in> set (vec3_entries (joint_pose (G ! b) j)) \<longrightarrow>
             loss ! b ! j = nan_block)" if bj: "b < length P" "j < J" for b j
  proof (intro conjI impI)
    assume "\<not> fless (M ! b ! j) (Fin 0)"
    then show "\<forall>e \<in> set (mat3_entries (loss ! b ! j)). \<not> fless e (Fin 0)"
      unfolding nth [OF bj] using block_not_negative by blast
  next
    assume a: "M ! b ! j = Fin 0
              \<and> list_all moderate_entry (vec3_entries (joint_pose (P ! b) j))
              \<and> list_all moderate_entry (vec3_entries (joint_pose (G ! b) j))"
    then obtain v w where v: "joint_pose (P ! b) j = fin_vec v"
      and w: "joint_pose (G ! b) j = fin_vec w"
      using is_fin_vec moderate_entries_fin by blast
    obtain A B where "axis_angle_to_matrix_row (fin_vec v) = fin_mat A"
      "axis_angle_to_matrix_row (fin_vec w) = fin_mat B"
      using row_numeric_total by blast
    then show "loss ! b ! j = zero_block"
      unfolding nth [OF bj] v w using a by (simp add: block_masked_zero)
  next
    assume a: "NaN \<in> set (vec3_entries (joint_pose (P ! b) j))
              \<or> NaN \<in> set (vec3_entries (joint_pose (G ! b) j))"
    have nan: "axis_angle_to_matrix_row v = nan_block" if "NaN \<in> set (vec3_entries v)" for v
    proof -
      obtain x y z where v: "v = (x, y, z)" by (metis prod_cases3)
      from that have "x = NaN \<or> y = NaN \<or> z = NaN" unfolding v by auto
      then show ?thesis unfolding v by (rule row_NaN)
    qed
    from a show "loss ! b ! j = nan_block"
      unfolding nth [OF bj] by (auto simp: nan block_NaN_left block_NaN_right)
  qed
  with ret shape show ?thesis by blast
qed

theorem PoseLoss_masked_joints_witness:
  "\<exists>loss. PoseLoss [[Fin 0, Fin 0, Fin 2, NaN, Fin 0, Fin 0]]
                    [[Fin 0, Fin 0, Fin 0, Fin 1, Fin 0, Fin 0]] [[Fin 0, Fin 0]] = Inr loss
     \<and> loss ! 0 ! 0 = zero_block \<and> loss ! 0 ! 1 = nan_block
     \<and> (\<forall>e \<in> set (mat3_entries (loss ! 0 ! 0)). \<not> fless e (Fin 0))"
proof -
  let ?P = "[[Fin 0, Fin 0, Fin 2, NaN, Fin 0, Fin 0]]"
  let ?G = "[[Fin 0, Fin 0, Fin 0, Fin 1, Fin 0, Fin 0]]"
  let ?M = "[[Fin 0, Fin 0]]"
  have h: "0 < length ?P" "rect2 (length ?P) (3 * 2) ?P" "rect2 (length ?P) (3 * 2) ?G"
    "rect2 (length ?P) 2 ?M"
    by (simp_all add: rect2_def)
  from PoseLoss_masked_joints [OF h] obtain loss
    where ret: "PoseLoss ?P ?G ?M = Inr loss"
      and all: "\<forall>b < length ?P. \<forall>j < 2.
          (\<not> fless (?M ! b ! j) (Fin 0) \<longrightarrow>
             (\<forall>e \<in> set (mat3_entries (loss ! b ! j)). \<not> fless e (Fin 0)))
        \<and> (?M ! b ! j = Fin 0
              \<and> list_all moderate_entry (vec3_entries (joint_pose (?P ! b) j))
              \<and> list_all moderate_entry (vec3_entries (joint_pose (?G ! b) j)) \<longrightarrow>
             loss ! b ! j = zero_block)
        \<and> (NaN \<in> set (vec3_entries (joint_pose (?P ! b) j))
              \<or> NaN \<in> set (vec3_entries (joint_pose (?G ! b) j)) \<longrightarrow>
             loss ! b ! j = nan_block)"
    by blast
  have j0: "loss ! 0 ! 0 = zero_block"
    "\<forall>e \<in> set (mat3_entries (loss ! 0 ! 0)). \<not> fless e (Fin 0)"
    using all [rule_format, of 0 0] by (simp_all add: joint_pose_def moderate_def)
  have j1: "loss ! 0 ! 1 = nan_block"
    using all [rule_format, of 0 1] by (simp add: joint_pose_def)
  from ret j0 j1 show ?thesis by blast
qed

lemma triples_fin:
  "\<forall>x \<in> set xs. is_fin x \<Longrightarrow> \<forall>t \<in> set (triples xs). \<exists>v. t = fin_vec v"
proof (induction xs rule: triples.induct)
  case (1 x y z rest)
  then obtain x' y' z' where "x = Fin x'" "y = Fin y'" "z = Fin z'"
    by (cases x; cases y; cases z) auto
  then have "(x, y, z) = fin_vec (x', y', z')" by simp
  with 1 show ?case by auto
qed simp_all

lemma view_b3_fin:
  assumes "view_b3 B (map (map Fin) P) = Inr po" and "ts \<in> set po" and "t \<in> set ts"
  shows "\<exists>v. t = fin_vec v"
proof -
  let ?flat = "concat (map (map Fin) P)"
  have fin: "\<forall>x \<in> set ?flat. is_fin x" by auto
  from assms(1,2) obtain n k where ts: "ts = triples (take n (drop k ?flat))"
    by (auto simp: view_b3_def Let_def split: if_splits)
  have "set (take n (drop k ?flat)) \<subseteq> set ?flat"
    by (meson set_take_subset set_drop_subset subset_trans)
  with fin have "\<forall>x \<in> set (take n (drop k ?flat)). is_fin x" by blast
  from triples_fin [OF this] assms(3) show ?thesis unfolding ts by blast
qed

lemma PoseLoss_identical_zero:
  assumes "PoseLoss (map (map Fin) P) (map (map Fin) P) (map (map Fin) M) = Inr loss"
    and "row \<in> set loss" and "blk \<in> set row"
  shows "blk = zero_block"
proof -
  let ?P = "map (map Fin) P" and ?M = "map (map Fin) M"
  from assms(1) obtain po where po: "view_b3 (length ?P) ?P = Inr po"
    by (auto simp: PoseLoss_def Let_def split: sum.splits)
  let ?rot = "map (map axis_angle_to_matrix_row) po"
  have d: "broadcast2 (broadcast2 (\<lambda>a b. Inr (msub a b))) ?rot ?rot
             = Inr (map2 (map2 msub) ?rot ?rot)"
    by (rule broadcast2_nested_same) simp_all
  let ?diff = "map (map mabs) (map2 (map2 msub) ?rot ?rot)"
  from assms(1) have out: "broadcast2 (broadcast2 (\<lambda>m v. Inr (mtimes m v))) ?diff ?M = Inr loss"
    unfolding PoseLoss_def Let_def po sum.case axis_angle_to_matrix_bn_def
      axis_angle_to_matrix_def d .
  from broadcast2_members [OF out assms(2)] obtain dr mr
    where dr: "dr \<in> set ?diff" and mr: "mr \<in> set ?M"
      and r: "broadcast2 (\<lambda>m v. Inr (mtimes m v)) dr mr = Inr row"
    by blast
  from broadcast2_members [OF r assms(3)] obtain dd m
    where dd: "dd \<in> set dr" and m: "m \<in> set mr" and blk: "blk = mtimes dd m"
    by auto
  from mr m obtain m' where m': "m = Fin m'" by auto
  have same: "map2 (map2 msub) ?rot ?rot = map (map (\<lambda>a. msub a a)) ?rot"
    by (simp add: zip_same_conv_map)
  from dr dd obtain ts t where "ts \<in> set po" "t \<in> set ts"
    and dd': "dd = mabs (msub (axis_angle_to_matrix_row t) (axis_angle_to_matrix_row t))"
    unfolding same by auto
  with view_b3_fin [OF po] obtain v where "t = fin_vec v" by blast
  moreover obtain A where "axis_angle_to_matrix_row (fin_vec v) = fin_mat A"
    using row_numeric_total by blast
  ultimately show ?thesis
    unfolding blk dd' m' by (simp add: block_same_zero)
qed

lemma rect2_map_Fin: "rect2 B J t \<Longrightarrow> rect2 B J (map (map Fin) t)"
  by (simp add: rect2_def list_all_iff)

text \<open>
  Claim C7 does not hold for every mask: for identical poses the difference of the blocks
  is zero, and zero times an infinite entry of the mask is NaN.
\<close>

theorem PoseLoss_infinite_mask_counterexample:
  "PoseLoss [[Fin 0, Fin 0, Fin 0]] [[Fin 0, Fin 0, Fin 0]] [[PInf]] = Inr [[nan_block]]"
  unfolding PoseLoss_single row_zero
  by (simp add: eye3_def nan_block_def fsub_def inf_times_def)

text \<open>
  Claim C7, amended. For identical poses of moderate numbers and any mask of numbers, of
  any shape, every block of the tensor \<open>PoseLoss\<close> returns is zero; for the documented shapes
  \<open>(B, J * 3)\<close> and \<open>(B, J)\<close> it does return a tensor, of shape \<open>(B, J, 3, 3)\<close>.
\<close>

theorem PoseLoss_identical_moderate_poses:
  assumes "list_all (list_all moderate) P"
  shows "(PoseLoss (map (map Fin) P) (map (map Fin) P) (map (map Fin) M) = Inr loss \<longrightarrow>
      (\<forall>row \<in> set loss. \<forall>blk \<in> set row. blk = zero_block))
   \<and> (0 < length P \<and> rect2 (length P) (3 * J) P \<and> rect2 (length P) J M \<longrightarrow>
      (\<exists>loss'. PoseLoss (map (map Fin) P) (map (map Fin) P) (map (map Fin) M) = Inr loss'
             \<and> rect2 (length P) J loss'))"
proof (intro conjI impI)
  assume "PoseLoss (map (map Fin) P) (map (map Fin) P) (map (map Fin) M) = Inr loss"
  then show "\<forall>row \<in> set loss. \<forall>blk \<in> set row. blk = zero_block"
    using PoseLoss_identical_zero by blast
next
  assume a: "0 < length P \<and> rect2 (length P) (3 * J) P \<and> rect2 (length P) J M"
  then have h: "0 < length (map (map Fin) P)"
    "rect2 (length (map (map Fin) P)) (3 * J) (map (map Fin) P)"
    "rect2 (length (map (map Fin) P)) J (map (map Fin) M)"
    using rect2_map_Fin by auto
  from PoseLoss_rect_nth [OF h(1) h(2) h(2) h(3)]
  show "\<exists>loss'. PoseLoss (map (map Fin) P) (map (map Fin) P) (map (map Fin) M) = Inr loss'
             \<and> rect2 (length P) J loss'"
    by auto
qed

theorem PoseLoss_identical_moderate_poses_witness:
  "\<exists>loss. PoseLoss (map (map Fin) [[0, 0, 2, 1, 0, 0]]) (map (map Fin) [[0, 0, 2, 1, 0, 0]])
                   (map (map Fin) [[1, 5]]) = Inr loss
     \<and> rect2 1 2 loss \<and> (\<forall>row \<in> set loss. \<forall>blk \<in> set row. blk = zero_block)"
proof -
  let ?P = "[[0, 0, 2, 1, 0, 0]] :: real list list"
  let ?M = "[[1, 5]] :: real list list"
  have m: "list_all (list_all moderate) ?P" by (simp add: moderate_def)
  have h: "0 < length ?P \<and> rect2 (length ?P) (3 * 2) ?P \<and> rect2 (length ?P) 2 ?M"
    by (simp add: rect2_def)
  from PoseLoss_identical_moderate_poses [OF m, of ?M _ 2] h obtain loss
    where ret: "PoseLoss (map (map Fin) ?P) (map (map Fin) ?P) (map (map Fin) ?M) = Inr loss"
      and sh: "rect2 (length ?P) 2 loss"
    by blast
  from PoseLoss_identical_moderate_poses [OF m, of ?M loss 2] ret
  have "\<forall>row \<in> set loss. \<forall>blk \<in> set row. blk = zero_block" by blast
  with ret sh show ?thesis by auto
qed

section \<open>Properties of \<open>CoordLoss\<close>\<close>

lemma rect3_length: "rect3 B J C t \<Longrightarrow> length t = B"
  by (simp add: rect3_def)

lemma rect3_nth: "rect3 B J C t \<Longrightarrow> b < B \<Longrightarrow> length (t ! b) = J"
  by (simp add: rect3_def rect2_def list_all_length)

lemma rect3_nth_nth: "rect3 B J C t \<Longrightarrow> b < B \<Longrightarrow> j < J \<Longrightarrow> length (t ! b ! j) = C"
  by (simp add: rect3_def rect2_def list_all_length)

lemma rect3I:
  assumes "length t = B" and "\<And>b. b < B \<Longrightarrow> length (t ! b) = J"
    and "\<And>b j. b < B \<Longrightarrow> j < J \<Longrightarrow> length (t ! b ! j) = C"
  shows "rect3 B J C t"
  using assms by (simp add: rect3_def rect2_def list_all_length)

lemma elementwise3_rect:
  assumes X: "rect3 B J C X" and Y: "rect3 B J C Y"
  shows "elementwise3 f X Y = Inr (map2 (map2 (map2 f)) X Y)"
  unfolding elementwise3_def
proof (rule broadcast2_same)
  show "length X = length Y" using X Y by (simp add: rect3_length)
next
  fix b assume "b < length X"
  then have b: "b < B" using X by (simp add: rect3_length)
  show "broadcast2 (broadcast2 (\<lambda>a b. Inr (f a b))) (X ! b) (Y ! b)
          = Inr (map2 (map2 f) (X ! b) (Y ! b))"
  proof (rule broadcast2_nested_same)
    show "length (X ! b) = length (Y ! b)"
      using rect3_nth [OF X b] rect3_nth [OF Y b] by simp
  next
    fix j assume "j < length (X ! b)"
    then have "j < J" using rect3_nth [OF X b] by simp
    then show "length (X ! b ! j) = length (Y ! b ! j)"
      using rect3_nth_nth [OF X b] rect3_nth_nth [OF Y b] by simp
  qed
qed

lemma rect3_map2:
  assumes X: "rect3 B J C X" and Y: "rect3 B J C Y"
  shows "rect3 B J C (map2 (map2 (map2 f)) X Y)"
proof (rule rect3I)
  show "length (map2 (map2 (map2 f)) X Y) = B"
    using X Y by (simp add: rect3_length)
next
  fix b assume b: "b < B"
  then show "length (map2 (map2 (map2 f)) X Y ! b) = J"
    using rect3_length [OF X] rect3_length [OF Y] rect3_nth [OF X b] rect3_nth [OF Y b]
    by simp
next
  fix b j assume b: "b < B" and j: "j < J"
  then show "length (map2 (map2 (map2 f)) X Y ! b ! j) = C"
    using rect3_length [OF X] rect3_length [OF Y] rect3_nth [OF X b] rect3_nth [OF Y b]
      rect3_nth_nth [OF X b j] rect3_nth_nth [OF Y b j]
    by simp
qed

lemma map2_nth3:
  assumes X: "rect3 B J C X" and Y: "rect3 B J C Y" and "b < B" "j < J" "k < C"
  shows "map2 (map2 (map2 f)) X Y ! b ! j ! k = f (X ! b ! j ! k) (Y ! b ! j ! k)"
  using rect3_length [OF X] rect3_length [OF Y] rect3_nth [OF X assms(3)]
    rect3_nth [OF Y assms(3)] rect3_nth_nth [OF X assms(3,4)] rect3_nth_nth [OF Y assms(3,4)]
    assms(3-5)
  by simp

lemma rect3_map: "rect3 B J C X \<Longrightarrow> rect3 B J C (map (map (map f)) X)"
  by (simp add: rect3_def rect2_def list_all_iff)

text \<open>The gate: a tensor times \<^verbatim>\<open>is_3D[:,None,None]\<close>.\<close>

lemma gate_rows:
  "broadcast2 (broadcast2 (\<lambda>a b. Inr (fmul a b))) rows [[x]]
     = Inr (map (map (\<lambda>a. fmul a x)) rows)"
  by (rule broadcast2_single [where g = "\<lambda>r y. map (\<lambda>a. fmul a x) r"])
     (rule broadcast2_single [where g = "\<lambda>a y. fmul a y"], simp)

lemma gate_batch:
  assumes "length Z = length is_3D"
  shows "elementwise3 fmul Z (map (\<lambda>x. [[x]]) is_3D)
     = Inr (map2 (\<lambda>rows x. map (map (\<lambda>a. fmul a x)) rows) Z is_3D)"
proof -
  have "broadcast2 (broadcast2 (broadcast2 (\<lambda>a b. Inr (fmul a b)))) Z (map (\<lambda>x. [[x]]) is_3D)
      = Inr (map2 (\<lambda>rows y. map (map (\<lambda>a. fmul a (hd (hd y)))) rows) Z (map (\<lambda>x. [[x]]) is_3D))"
    by (rule broadcast2_same) (use assms in \<open>simp_all add: gate_rows\<close>)
  moreover have "map2 (\<lambda>rows y. map (map (\<lambda>a. fmul a (hd (hd y)))) rows) Z (map (\<lambda>x. [[x]]) is_3D)
      = map2 (\<lambda>rows x. map (map (\<lambda>a. fmul a x)) rows) Z is_3D"
    by (rule nth_equalityI) (use assms in simp_all)
  ultimately show ?thesis by (simp add: elementwise3_def)
qed

lemma cat2_same:
  assumes "length A = length B" and "list_all2 (\<lambda>a b. length a = length b) A B"
  shows "cat2 A B = Inr (map2 (map2 (@)) A B)"
  using assms by (simp add: cat2_def)

lemma CoordLoss_rect:
  assumes co: "rect3 B J 3 coord_out" and cg: "rect3 B J 3 coord_gt"
    and va: "rect3 B J 3 valid" and i3: "length is_3D = B"
  shows "\<exists>loss. CoordLoss coord_out coord_gt valid is_3D = Inr loss \<and> rect3 B J 3 loss
     \<and> (\<forall>b < B. \<forall>j < J.
          (\<forall>k < 2. loss ! b ! j ! k =
              fmul (fabs (fsub (coord_out ! b ! j ! k) (coord_gt ! b ! j ! k)))
                   (valid ! b ! j ! k))
        \<and> loss ! b ! j ! 2 =
              fmul (fmul (fabs (fsub (coord_out ! b ! j ! 2) (coord_gt ! b ! j ! 2)))
                         (valid ! b ! j ! 2)) (is_3D ! b))"
proof -
  let ?diff = "map2 (map2 (map2 fsub)) coord_out coord_gt"
  let ?abs = "map (map (map fabs)) ?diff"
  let ?L = "map2 (map2 (map2 fmul)) ?abs valid"
  let ?Z = "map2 (\<lambda>rows x. map (map (\<lambda>a. fmul a x)) rows) (map (map (drop 2)) ?L) is_3D"
  let ?out = "map2 (map2 (@)) (map (map (take 2)) ?L) ?Z"
  have rd: "rect3 B J 3 ?diff" by (rule rect3_map2 [OF co cg])
  have ra: "rect3 B J 3 ?abs" by (rule rect3_map [OF rd])
  have rL: "rect3 B J 3 ?L" by (rule rect3_map2 [OF ra va])
  have lL: "length ?L = B" by (rule rect3_length [OF rL])
  have e1: "elementwise3 fsub coord_out coord_gt = Inr ?diff"
    by (rule elementwise3_rect [OF co cg])
  have e2: "elementwise3 fmul ?abs valid = Inr ?L"
    by (rule elementwise3_rect [OF ra va])
  have e3: "elementwise3 fmul (map (map (drop 2)) ?L) (map (\<lambda>x. [[x]]) is_3D) = Inr ?Z"
    by (rule gate_batch) (use lL i3 in simp)
  have Lb: "length (?L ! b) = J" if "b < B" for b by (rule rect3_nth [OF rL that])
  have Lbj: "length (?L ! b ! j) = 3" if "b < B" "j < J" for b j
    by (rule rect3_nth_nth [OF rL that])
  have Lv: "?L ! b ! j ! k =
      fmul (fabs (fsub (coord_out ! b ! j ! k) (coord_gt ! b ! j ! k))) (valid ! b ! j ! k)"
    if "b < B" "j < J" "k < 3" for b j k
  proof -
    have "?L ! b ! j ! k = fmul (?abs ! b ! j ! k) (valid ! b ! j ! k)"
      by (rule map2_nth3 [OF ra va that])
    moreover have "?abs ! b ! j ! k = fabs (?diff ! b ! j ! k)"
      using rect3_length [OF rd] rect3_nth [OF rd that(1)] rect3_nth_nth [OF rd that(1,2)] that
      by simp
    moreover have "?diff ! b ! j ! k = fsub (coord_out ! b ! j ! k) (coord_gt ! b ! j ! k)"
      by (rule map2_nth3 [OF co cg that])
    ultimately show ?thesis by simp
  qed
  have lZ: "length ?Z = B" using lL i3 by simp
  have Zb: "?Z ! b = map (map (\<lambda>a. fmul a (is_3D ! b))) (map (drop 2) (?L ! b))" if "b < B" for b
    using that lL i3 by simp
  have shapes: "length (map (map (take 2)) ?L) = length ?Z
      \<and> list_all2 (\<lambda>a b. length a = length b) (map (map (take 2)) ?L) ?Z"
    unfolding list_all2_conv_all_nth using lZ lL Zb Lb by simp
  have e4: "cat2 (map (map (take 2)) ?L) ?Z = Inr ?out"
    by (rule cat2_same) (use shapes in blast)+
  have ret: "CoordLoss coord_out coord_gt valid is_3D = Inr ?out"
    unfolding CoordLoss_def e1 sum.case e2 e3 e4 ..
  have ob: "?out ! b ! j = take 2 (?L ! b ! j) @ map (\<lambda>a. fmul a (is_3D ! b)) (drop 2 (?L ! b ! j))"
    if "b < B" "j < J" for b j
    using that lL lZ Zb [OF that(1)] Lb [OF that(1)] by simp
  have val: "?out ! b ! j = [?L ! b ! j ! 0, ?L ! b ! j ! 1, fmul (?L ! b ! j ! 2) (is_3D ! b)]"
    if "b < B" "j < J" for b j
  proof -
    from Lbj [OF that] obtain l0 l1 l2 where l: "?L ! b ! j = [l0, l1, l2]"
      by (auto simp: length_Suc_conv numeral_3_eq_3)
    show ?thesis unfolding ob [OF that] l by simp
  qed
  have ro: "rect3 B J 3 ?out"
  proof (rule rect3I)
    show "length ?out = B" using lL lZ by simp
  next
    fix b assume b: "b < B"
    then show "length (?out ! b) = J" using lL lZ Zb [OF b] Lb [OF b] by simp
  next
    fix b j assume "b < B" "j < J"
    then show "length (?out ! b ! j) = 3" by (simp only: val) simp
  qed
  have "(\<forall>k < 2. ?out ! b ! j ! k =
              fmul (fabs (fsub (coord_out ! b ! j ! k) (coord_gt ! b ! j ! k)))
                   (valid ! b ! j ! k))
        \<and> ?out ! b ! j ! 2 =
              fmul (fmul (fabs (fsub (coord_out ! b ! j ! 2) (coord_gt ! b ! j ! 2)))
                         (valid ! b ! j ! 2)) (is_3D ! b)" if bj: "b < B" "j < J" for b j
  proof (intro conjI allI impI)
    fix k :: nat assume "k < 2"
    then have "k = 0 \<or> k = 1" by auto
    then show "?out ! b ! j ! k =
              fmul (fabs (fsub (coord_out ! b ! j ! k) (coord_gt ! b ! j ! k)))
                   (valid ! b ! j ! k)"
      unfolding val [OF bj] using Lv [OF bj, of 0] Lv [OF bj, of 1] by auto
  next
    show "?out ! b ! j ! 2 =
              fmul (fmul (fabs (fsub (coord_out ! b ! j ! 2) (coord_gt ! b ! j ! 2)))
                         (valid ! b ! j ! 2)) (is_3D ! b)"
      unfolding val [OF bj] using Lv [OF bj, of 2] by simp
  qed
  with ret ro show ?thesis by blast
qed

lemma elementwise3_entries:
  assumes "elementwise3 f X Y = Inr Z" and "R \<in> set Z" and "r \<in> set R" and "e \<in> set r"
  shows "\<exists>x \<in> set (concat (concat X)). \<exists>y \<in> set (concat (concat Y)). e = f x y"
proof -
  from broadcast2_members [OF assms(1) [unfolded elementwise3_def] assms(2)]
  obtain X1 Y1 where 1: "X1 \<in> set X" "Y1 \<in> set Y"
    and r1: "broadcast2 (broadcast2 (\<lambda>a b. Inr (f a b))) X1 Y1 = Inr R"
    by blast
  from broadcast2_members [OF r1 assms(3)]
  obtain X2 Y2 where 2: "X2 \<in> set X1" "Y2 \<in> set Y1"
    and r2: "broadcast2 (\<lambda>a b. Inr (f a b)) X2 Y2 = Inr r"
    by blast
  from broadcast2_members [OF r2 assms(4)]
  obtain x y where 3: "x \<in> set X2" "y \<in> set Y2" and e: "e = f x y"
    by auto
  from 1 2 3 have "x \<in> set (concat (concat X))" "y \<in> set (concat (concat Y))"
    by auto
  with e show ?thesis by blast
qed

lemma moderate3_entries: "moderate3 t \<Longrightarrow> x \<in> set (concat (concat t)) \<Longrightarrow> moderate_entry x"
  by (auto simp: moderate3_def list_all_iff)

lemma cat2_Inr:
  assumes "cat2 A B = Inr C"
  shows "length A = length B" "list_all2 (\<lambda>a b. length a = length b) A B"
    "C = map2 (map2 (@)) A B"
  using assms by (auto simp: cat2_def split: if_splits)

lemma gate_nth:
  assumes g: "elementwise3 fmul Z (map (\<lambda>x. [[x]]) is_3D) = Inr G"
    and len: "length G = length Z" and b: "b < length Z"
  shows "\<exists>x. G ! b = map (map (\<lambda>a. fmul a x)) (Z ! b) \<and> (b < length is_3D \<longrightarrow> x = is_3D ! b)"
proof -
  let ?f = "broadcast2 (broadcast2 (\<lambda>a b. Inr (fmul a b)))"
  let ?I = "map (\<lambda>x. [[x]]) is_3D"
  have row: "?f rows [[x]] = Inr (map (map (\<lambda>a. fmul a x)) rows)" for rows x
    by (rule gate_rows)
  consider (same) "length Z = length ?I" "collect (map2 ?f Z ?I) = Inr G"
    | (left) "length Z \<noteq> length ?I" "length Z = 1" "collect (map (?f (hd Z)) ?I) = Inr G"
    | (right) "length Z \<noteq> length ?I" "length ?I = 1" "collect (map (\<lambda>x. ?f x (hd ?I)) Z) = Inr G"
    using g by (auto simp: elementwise3_def broadcast2_def split: if_splits)
  then show ?thesis
  proof cases
    case same
    from same(2) have "map2 ?f Z ?I = map Inr G" by (simp only: collect_Inr_iff)
    then have "map2 ?f Z ?I ! b = map Inr G ! b" by simp
    then have "?f (Z ! b) [[is_3D ! b]] = Inr (G ! b)"
      using b same(1) len by simp
    then have "G ! b = map (map (\<lambda>a. fmul a (is_3D ! b))) (Z ! b)" unfolding row by simp
    then show ?thesis by blast
  next
    case left
    from left(3) have "map (?f (hd Z)) ?I = map Inr G" by (simp only: collect_Inr_iff)
    then have "length ?I = length G" by (metis length_map)
    with left(1) len show ?thesis by simp
  next
    case right
    then obtain x where x: "is_3D = [x]" by (cases is_3D) auto
    from right(3) have "map (\<lambda>r. ?f r (hd ?I)) Z = map Inr G" by (simp only: collect_Inr_iff)
    then have "map (\<lambda>r. ?f r (hd ?I)) Z ! b = map Inr G ! b" by simp
    then have "?f (Z ! b) [[x]] = Inr (G ! b)"
      using b len x by simp
    then have "G ! b = map (map (\<lambda>a. fmul a x)) (Z ! b)" unfolding row by simp
    moreover have "b < length is_3D \<longrightarrow> x = is_3D ! b" using x by simp
    ultimately show ?thesis by blast
  qed
qed

lemma CoordLoss_parts:
  assumes "CoordLoss coord_out coord_gt valid is_3D = Inr loss"
  shows "\<exists>diff base G.
          elementwise3 fsub coord_out coord_gt = Inr diff
        \<and> elementwise3 fmul (map (map (map fabs)) diff) valid = Inr base
        \<and> elementwise3 fmul (map (map (drop 2)) base) (map (\<lambda>x. [[x]]) is_3D) = Inr G
        \<and> cat2 (map (map (take 2)) base) G = Inr loss"
  using assms by (auto simp: CoordLoss_def split: sum.splits)

lemma CoordLoss_general:
  assumes ret: "CoordLoss coord_out coord_gt valid is_3D = Inr loss"
  shows "\<exists>diff base.
          elementwise3 fsub coord_out coord_gt = Inr diff
        \<and> elementwise3 fmul (map (map (map fabs)) diff) valid = Inr base
        \<and> length loss = length base
        \<and> (\<forall>b < length loss. length (loss ! b) = length (base ! b)
             \<and> (\<forall>j < length (loss ! b). length (loss ! b ! j) = length (base ! b ! j)
                \<and> (\<forall>k < 2. k < length (base ! b ! j) \<longrightarrow> loss ! b ! j ! k = base ! b ! j ! k)
                \<and> (b < length is_3D \<longrightarrow>
                     (\<forall>k. 2 \<le> k \<and> k < length (loss ! b ! j) \<longrightarrow>
                        loss ! b ! j ! k = fmul (base ! b ! j ! k) (is_3D ! b)))))"
proof -
  from CoordLoss_parts [OF ret] obtain diff base G
    where e1: "elementwise3 fsub coord_out coord_gt = Inr diff"
      and e2: "elementwise3 fmul (map (map (map fabs)) diff) valid = Inr base"
      and e3: "elementwise3 fmul (map (map (drop 2)) base) (map (\<lambda>x. [[x]]) is_3D) = Inr G"
      and e4: "cat2 (map (map (take 2)) base) G = Inr loss"
    by blast
  let ?X = "map (map (take 2)) base"
  note c = cat2_Inr [OF e4]
  have lG: "length G = length base" using c(1) by simp
  have ll: "length loss = length base" unfolding c(3) using lG by simp
  have rows: "length (G ! b) = length (base ! b)" if "b < length base" for b
    using c(2) that lG by (simp add: list_all2_conv_all_nth)
  have lb: "loss ! b = map2 (@) (map (take 2) (base ! b)) (G ! b)" if "b < length base" for b
    unfolding c(3) using that lG by simp
  have lbl: "length (loss ! b) = length (base ! b)" if "b < length base" for b
    unfolding lb [OF that] using rows [OF that] by simp
  have lbj: "loss ! b ! j = take 2 (base ! b ! j) @ G ! b ! j"
    if "b < length base" "j < length (base ! b)" for b j
    unfolding lb [OF that(1)] using that rows [OF that(1)] by simp
  have gate: "\<exists>x. G ! b ! j = map (\<lambda>a. fmul a x) (drop 2 (base ! b ! j))
                \<and> (b < length is_3D \<longrightarrow> x = is_3D ! b)"
    if "b < length base" "j < length (base ! b)" for b j
  proof -
    have "\<exists>x. G ! b = map (map (\<lambda>a. fmul a x)) (map (map (drop 2)) base ! b)
              \<and> (b < length is_3D \<longrightarrow> x = is_3D ! b)"
      by (rule gate_nth [OF e3]) (use that lG in simp_all)
    then show ?thesis using that by auto
  qed
  have main: "length (loss ! b) = length (base ! b)
             \<and> (\<forall>j < length (loss ! b). length (loss ! b ! j) = length (base ! b ! j)
                \<and> (\<forall>k < 2. k < length (base ! b ! j) \<longrightarrow> loss ! b ! j ! k = base ! b ! j ! k)
                \<and> (b < length is_3D \<longrightarrow>
                     (\<forall>k. 2 \<le> k \<and> k < length (loss ! b ! j) \<longrightarrow>
                        loss ! b ! j ! k = fmul (base ! b ! j ! k) (is_3D ! b))))"
    if b: "b < length loss" for b
  proof -
    from b ll have bb: "b < length base" by simp
    have per_j: "length (loss ! b ! j) = length (base ! b ! j)
                \<and> (\<forall>k < 2. k < length (base ! b ! j) \<longrightarrow> loss ! b ! j ! k = base ! b ! j ! k)
                \<and> (b < length is_3D \<longrightarrow>
                     (\<forall>k. 2 \<le> k \<and> k < length (loss ! b ! j) \<longrightarrow>
                        loss ! b ! j ! k = fmul (base ! b ! j ! k) (is_3D ! b)))"
      if "j < length (loss ! b)" for j
    proof -
      from that have jj: "j < length (base ! b)" using lbl [OF bb] by simp
      from gate [OF bb jj] obtain x
        where gx: "G ! b ! j = map (\<lambda>a. fmul a x) (drop 2 (base ! b ! j))"
          and xb: "b < length is_3D \<longrightarrow> x = is_3D ! b"
        by blast
      have eq: "loss ! b ! j = take 2 (base ! b ! j) @ map (\<lambda>a. fmul a x) (drop 2 (base ! b ! j))"
        unfolding lbj [OF bb jj] gx ..
      have len: "length (loss ! b ! j) = length (base ! b ! j)"
        unfolding eq by simp
      have xy: "\<forall>k < 2. k < length (base ! b ! j) \<longrightarrow> loss ! b ! j ! k = base ! b ! j ! k"
        unfolding eq by (simp add: nth_append)
      have z: "loss ! b ! j ! k = fmul (base ! b ! j ! k) x"
        if "2 \<le> k" "k < length (base ! b ! j)" for k
      proof -
        have k2: "2 + (k - 2) = k" using that by simp
        have "drop 2 (base ! b ! j) ! (k - 2) = base ! b ! j ! (2 + (k - 2))"
          by (rule nth_drop) (use that in simp)
        then have d: "drop 2 (base ! b ! j) ! (k - 2) = base ! b ! j ! k"
          unfolding k2 .
        have "(take 2 (base ! b ! j) @ map (\<lambda>a. fmul a x) (drop 2 (base ! b ! j))) ! k
              = map (\<lambda>a. fmul a x) (drop 2 (base ! b ! j)) ! (k - 2)"
          using that by (simp add: nth_append)
        also have "\<dots> = fmul (drop 2 (base ! b ! j) ! (k - 2)) x"
          by (rule nth_map) (use that in simp)
        finally show ?thesis unfolding eq d .
      qed
      from len xy z xb show ?thesis by simp
    qed
    from lbl [OF bb] per_j show ?thesis by blast
  qed
  from e1 e2 ll main show ?thesis by blast
qed

lemma base_entries_fin:
  assumes e1: "elementwise3 fsub coord_out coord_gt = Inr diff"
    and e2: "elementwise3 fmul (map (map (map fabs)) diff) valid = Inr base"
    and m: "moderate3 coord_out" "moderate3 coord_gt" "moderate3 valid"
    and mem: "R \<in> set base" "r \<in> set R" "e \<in> set r"
  shows "is_fin e"
proof -
  from elementwise3_entries [OF e2 mem] obtain a v
    where a: "a \<in> set (concat (concat (map (map (map fabs)) diff)))"
      and v: "v \<in> set (concat (concat valid))" and e: "e = fmul a v"
    by blast
  from a obtain D d' d where D: "D \<in> set diff" "d' \<in> set D" "d \<in> set d'" and ad: "a = fabs d"
    by auto
  from elementwise3_entries [OF e1 D] obtain x y
    where x: "x \<in> set (concat (concat coord_out))" and y: "y \<in> set (concat (concat coord_gt))"
      and d: "d = fsub x y"
    by blast
  from moderate3_entries [OF m(1) x] moderate3_entries [OF m(2) y] moderate3_entries [OF m(3) v]
  obtain x' y' v' where "x = Fin x'" "y = Fin y'" "v = Fin v'"
    by (cases x; cases y; cases v) auto
  then show ?thesis unfolding e ad d by (simp add: fsub_def)
qed

lemma elementwise3_rect_bj1:
  assumes X: "rect3 B J C X" and Y: "rect3 B J 1 Y"
  shows "\<exists>Z. elementwise3 f X Y = Inr Z \<and> rect3 B J C Z"
proof -
  let ?g = "\<lambda>r y. map (\<lambda>a. f a (hd y)) r"
  let ?Z = "map2 (map2 ?g) X Y"
  have lX: "length X = B" and lY: "length Y = B"
    using X Y by (simp_all add: rect3_length)
  have inner: "broadcast2 (\<lambda>a b. Inr (f a b)) (X ! b ! j) (Y ! b ! j)
                 = Inr (?g (X ! b ! j) (Y ! b ! j))" if "b < B" "j < J" for b j
  proof -
    from rect3_nth_nth [OF Y that] obtain y where y: "Y ! b ! j = [y]"
      by (auto simp: length_Suc_conv)
    have "broadcast2 (\<lambda>a b. Inr (f a b)) (X ! b ! j) [y] = Inr (map (\<lambda>a. f a y) (X ! b ! j))"
      by (rule broadcast2_single) simp
    then show ?thesis unfolding y by simp
  qed
  have middle: "broadcast2 (broadcast2 (\<lambda>a b. Inr (f a b))) (X ! b) (Y ! b)
                 = Inr (map2 ?g (X ! b) (Y ! b))" if "b < B" for b
    by (rule broadcast2_same)
       (use that rect3_nth [OF X that] rect3_nth [OF Y that] inner [OF that] in simp_all)
  have ret: "elementwise3 f X Y = Inr ?Z"
    unfolding elementwise3_def
    by (rule broadcast2_same) (use lX lY middle in simp_all)
  have "rect3 B J C ?Z"
  proof (rule rect3I)
    show "length ?Z = B" using lX lY by simp
  next
    fix b assume b: "b < B"
    then show "length (?Z ! b) = J"
      using lX lY rect3_nth [OF X b] rect3_nth [OF Y b] by simp
  next
    fix b j assume b: "b < B" and j: "j < J"
    then show "length (?Z ! b ! j) = C"
      using lX lY rect3_nth [OF X b] rect3_nth [OF Y b] rect3_nth_nth [OF X b j] by simp
  qed
  with ret show ?thesis by blast
qed

lemma CoordLoss_returns:
  assumes e1: "elementwise3 fsub coord_out coord_gt = Inr diff"
    and e2: "elementwise3 fmul (map (map (map fabs)) diff) valid = Inr base"
    and rb: "rect3 B J 3 base" and i3: "length is_3D = B"
  shows "\<exists>loss. CoordLoss coord_out coord_gt valid is_3D = Inr loss \<and> rect3 B J 3 loss"
proof -
  let ?Zd = "map (map (drop 2)) base"
  let ?G = "map2 (\<lambda>rows x. map (map (\<lambda>a. fmul a x)) rows) ?Zd is_3D"
  let ?X = "map (map (take 2)) base"
  have lb: "length base = B" by (rule rect3_length [OF rb])
  have e3: "elementwise3 fmul ?Zd (map (\<lambda>x. [[x]]) is_3D) = Inr ?G"
    by (rule gate_batch) (use lb i3 in simp)
  have lG: "length ?G = B" using lb i3 by simp
  have Gb: "?G ! b = map (map (\<lambda>a. fmul a (is_3D ! b))) (map (drop 2) (base ! b))" if "b < B" for b
    using that lb i3 by simp
  have shapes: "length ?X = length ?G" "list_all2 (\<lambda>a b. length a = length b) ?X ?G"
    unfolding list_all2_conv_all_nth using lG lb Gb by simp_all
  have e4: "cat2 ?X ?G = Inr (map2 (map2 (@)) ?X ?G)"
    by (rule cat2_same) (use shapes in blast)+
  have ret: "CoordLoss coord_out coord_gt valid is_3D = Inr (map2 (map2 (@)) ?X ?G)"
    unfolding CoordLoss_def e1 sum.case e2 e3 e4 ..
  from CoordLoss_general [OF ret] obtain diff' base'
    where e1': "elementwise3 fsub coord_out coord_gt = Inr diff'"
      and e2': "elementwise3 fmul (map (map (map fabs)) diff') valid = Inr base'"
      and sh: "length (map2 (map2 (@)) ?X ?G) = length base'"
        "\<forall>b < length (map2 (map2 (@)) ?X ?G).
            length (map2 (map2 (@)) ?X ?G ! b) = length (base' ! b)
          \<and> (\<forall>j < length (map2 (map2 (@)) ?X ?G ! b).
                length (map2 (map2 (@)) ?X ?G ! b ! j) = length (base' ! b ! j))"
    by blast
  from e1 e1' have "diff' = diff" by simp
  with e2 e2' have bb: "base' = base" by simp
  have "rect3 B J 3 (map2 (map2 (@)) ?X ?G)"
  proof (rule rect3I)
    show l: "length (map2 (map2 (@)) ?X ?G) = B" using sh(1) bb lb by simp
    fix b assume b: "b < B"
    with sh(2) l bb show lr: "length (map2 (map2 (@)) ?X ?G ! b) = J"
      using rect3_nth [OF rb b] by simp
    fix j assume j: "j < J"
    with sh(2) l lr b bb show "length (map2 (map2 (@)) ?X ?G ! b ! j) = 3"
      using rect3_nth_nth [OF rb b j] by simp
  qed
  with ret show ?thesis by blast
qed

text \<open>
  Claim C4 does not hold for every value of \<open>valid\<close>: with an infinite entry of \<open>valid\<close> in
  the z channel the loss is infinite there, and infinity times \<open>is_3D = 0\<close> is NaN.
\<close>

theorem CoordLoss_infinite_valid_counterexample:
  "CoordLoss [[[Fin 0, Fin 0, Fin 1]]] [[[Fin 0, Fin 0, Fin 0]]] [[[Fin 1, Fin 1, PInf]]] [Fin 0]
     = Inr [[[Fin 0, Fin 0, NaN]]]"
  by (simp add: CoordLoss_def elementwise3_def broadcast2_def cat2_def fsub_def inf_times_def)

text \<open>
  Claim C4, amended. Whenever \<open>CoordLoss\<close> returns, for operands of any shapes that
  broadcast, the result has the shape of the base loss \<open>|coord_out - coord_gt| * valid\<close>; its
  x and y channels are those of the base loss for every item, whatever \<open>is_3D\<close> holds; and
  for an item \<open>b\<close> with \<open>is_3D[b] = 0\<close> every entry from the z channel on is exactly zero when
  the coordinates and \<open>valid\<close> are moderate numbers, whatever the numbers are. For
  coordinates of shape \<open>(B, J, 3)\<close>, \<open>valid\<close> of shape \<open>(B, J, 3)\<close> or \<open>(B, J, 1)\<close> and \<open>is_3D\<close>
  of shape \<open>(B)\<close> it does return, a tensor of shape \<open>(B, J, 3)\<close>.
\<close>

theorem CoordLoss_gate:
  "(CoordLoss coord_out coord_gt valid is_3D = Inr loss \<longrightarrow>
      (\<exists>diff base.
          elementwise3 fsub coord_out coord_gt = Inr diff
        \<and> elementwise3 fmul (map (map (map fabs)) diff) valid = Inr base
        \<and> length loss = length base
        \<and> (\<forall>b < length loss. length (loss ! b) = length (base ! b)
             \<and> (\<forall>j < length (loss ! b). length (loss ! b ! j) = length (base ! b ! j)
                \<and> (\<forall>k < 2. k < length (loss ! b ! j) \<longrightarrow> loss ! b ! j ! k = base ! b ! j ! k)
                \<and> (b < length is_3D \<and> is_3D ! b = Fin 0 \<and> moderate3 coord_out
                     \<and> moderate3 coord_gt \<and> moderate3 valid \<longrightarrow>
                     (\<forall>k. 2 \<le> k \<and> k < length (loss ! b ! j) \<longrightarrow>
                        loss ! b ! j ! k = Fin 0))))))
   \<and> (rect3 B J 3 coord_out \<and> rect3 B J 3 coord_gt
        \<and> (rect3 B J 3 valid \<or> rect3 B J 1 valid) \<and> length is_3D = B \<longrightarrow>
      (\<exists>loss'. CoordLoss coord_out coord_gt valid is_3D = Inr loss' \<and> rect3 B J 3 loss'))"
proof (intro conjI impI)
  assume ret: "CoordLoss coord_out coord_gt valid is_3D = Inr loss"
  from CoordLoss_general [OF ret] obtain diff base
    where e1: "elementwise3 fsub coord_out coord_gt = Inr diff"
      and e2: "elementwise3 fmul (map (map (map fabs)) diff) valid = Inr base"
      and ll: "length loss = length base"
      and g: "\<forall>b < length loss. length (loss ! b) = length (base ! b)
             \<and> (\<forall>j < length (loss ! b). length (loss ! b ! j) = length (base ! b ! j)
                \<and> (\<forall>k < 2. k < length (base ! b ! j) \<longrightarrow> loss ! b ! j ! k = base ! b ! j ! k)
                \<and> (b < length is_3D \<longrightarrow>
                     (\<forall>k. 2 \<le> k \<and> k < length (loss ! b ! j) \<longrightarrow>
                        loss ! b ! j ! k = fmul (base ! b ! j ! k) (is_3D ! b))))"
    by blast
  have "length (loss ! b) = length (base ! b)
             \<and> (\<forall>j < length (loss ! b). length (loss ! b ! j) = length (base ! b ! j)
                \<and> (\<forall>k < 2. k < length (loss ! b ! j) \<longrightarrow> loss ! b ! j ! k = base ! b ! j ! k)
                \<and> (b < length is_3D \<and> is_3D ! b = Fin 0 \<and> moderate3 coord_out
                     \<and> moderate3 coord_gt \<and> moderate3 valid \<longrightarrow>
                     (\<forall>k. 2 \<le> k \<and> k < length (loss ! b ! j) \<longrightarrow>
                        loss ! b ! j ! k = Fin 0)))" if b: "b < length loss" for b
  proof -
    from g b have lb: "length (loss ! b) = length (base ! b)" by blast
    have "length (loss ! b ! j) = length (base ! b ! j)
                \<and> (\<forall>k < 2. k < length (loss ! b ! j) \<longrightarrow> loss ! b ! j ! k = base ! b ! j ! k)
                \<and> (b < length is_3D \<and> is_3D ! b = Fin 0 \<and> moderate3 coord_out
                     \<and> moderate3 coord_gt \<and> moderate3 valid \<longrightarrow>
                     (\<forall>k. 2 \<le> k \<and> k < length (loss ! b ! j) \<longrightarrow>
                        loss ! b ! j ! k = Fin 0))" if j: "j < length (loss ! b)" for j
    proof -
      from g b j have lj: "length (loss ! b ! j) = length (base ! b ! j)"
        and xy: "\<forall>k < 2. k < length (base ! b ! j) \<longrightarrow> loss ! b ! j ! k = base ! b ! j ! k"
        and z: "b < length is_3D \<longrightarrow>
                     (\<forall>k. 2 \<le> k \<and> k < length (loss ! b ! j) \<longrightarrow>
                        loss ! b ! j ! k = fmul (base ! b ! j ! k) (is_3D ! b))"
        by blast+
      have zero: "loss ! b ! j ! k = Fin 0"
        if h: "b < length is_3D" "is_3D ! b = Fin 0" "moderate3 coord_out"
          "moderate3 coord_gt" "moderate3 valid" and k: "2 \<le> k" "k < length (loss ! b ! j)"
        for k
      proof -
        have "base ! b \<in> set base" using b ll by simp
        moreover have "base ! b ! j \<in> set (base ! b)" using j lb by simp
        moreover have "base ! b ! j ! k \<in> set (base ! b ! j)" using k lj by simp
        ultimately have "is_fin (base ! b ! j ! k)"
          by (rule base_entries_fin [OF e1 e2 h(3-5)])
        then obtain r where "base ! b ! j ! k = Fin r" by (cases "base ! b ! j ! k") auto
        with z h k show ?thesis by simp
      qed
      from lj xy zero show ?thesis by simp
    qed
    with lb show ?thesis by blast
  qed
  with e1 e2 ll
  show "\<exists>diff base.
          elementwise3 fsub coord_out coord_gt = Inr diff
        \<and> elementwise3 fmul (map (map (map fabs)) diff) valid = Inr base
        \<and> length loss = length base
        \<and> (\<forall>b < length loss. length (loss ! b) = length (base ! b)
             \<and> (\<forall>j < length (loss ! b). length (loss ! b ! j) = length (base ! b ! j)
                \<and> (\<forall>k < 2. k < length (loss ! b ! j) \<longrightarrow> loss ! b ! j ! k = base ! b ! j ! k)
                \<and> (b < length is_3D \<and> is_3D ! b = Fin 0 \<and> moderate3 coord_out
                     \<and> moderate3 coord_gt \<and> moderate3 valid \<longrightarrow>
                     (\<forall>k. 2 \<le> k \<and> k < length (loss ! b ! j) \<longrightarrow>
                        loss ! b ! j ! k = Fin 0))))"
    by blast
next
  assume a: "rect3 B J 3 coord_out \<and> rect3 B J 3 coord_gt
        \<and> (rect3 B J 3 valid \<or> rect3 B J 1 valid) \<and> length is_3D = B"
  then have co: "rect3 B J 3 coord_out" and cg: "rect3 B J 3 coord_gt"
    and i3: "length is_3D = B" by simp_all
  let ?diff = "map2 (map2 (map2 fsub)) coord_out coord_gt"
  have e1: "elementwise3 fsub coord_out coord_gt = Inr ?diff"
    by (rule elementwise3_rect [OF co cg])
  have ra: "rect3 B J 3 (map (map (map fabs)) ?diff)"
    by (rule rect3_map [OF rect3_map2 [OF co cg]])
  from a have "\<exists>base. elementwise3 fmul (map (map (map fabs)) ?diff) valid = Inr base
                  \<and> rect3 B J 3 base"
  proof (elim conjE disjE)
    assume va: "rect3 B J 3 valid"
    from elementwise3_rect [OF ra va] rect3_map2 [OF ra va] show ?thesis by blast
  next
    assume va: "rect3 B J 1 valid"
    from elementwise3_rect_bj1 [OF ra va] show ?thesis .
  qed
  then obtain base where e2: "elementwise3 fmul (map (map (map fabs)) ?diff) valid = Inr base"
    and rb: "rect3 B J 3 base" by blast
  from CoordLoss_returns [OF e1 e2 rb i3]
  show "\<exists>loss'. CoordLoss coord_out coord_gt valid is_3D = Inr loss' \<and> rect3 B J 3 loss'" .
qed

theorem CoordLoss_gate_witness:
  "\<exists>loss. CoordLoss [[[Fin 1, Fin 2, Fin 3]]] [[[Fin 0, Fin 0, Fin 0]]] [[[Fin 5]]] [Fin 0]
             = Inr loss
     \<and> rect3 1 1 3 loss \<and> loss ! 0 ! 0 ! 2 = Fin 0"
proof -
  let ?co = "[[[Fin 1, Fin 2, Fin 3]]]" and ?cg = "[[[Fin 0, Fin 0, Fin 0]]]"
  let ?va = "[[[Fin 5]]]" and ?i3 = "[Fin 0]"
  have sh: "rect3 1 1 3 ?co \<and> rect3 1 1 3 ?cg
        \<and> (rect3 1 1 3 ?va \<or> rect3 1 1 1 ?va) \<and> length ?i3 = 1"
    by (simp add: rect3_def rect2_def)
  have md: "moderate3 ?co" "moderate3 ?cg" "moderate3 ?va"
    by (simp_all add: moderate3_def moderate_def)
  from CoordLoss_gate [of ?co ?cg ?va ?i3 _ 1 1] sh obtain loss
    where ret: "CoordLoss ?co ?cg ?va ?i3 = Inr loss" and r3: "rect3 1 1 3 loss"
    by blast
  have l: "length loss = 1" "length (loss ! 0) = 1" "length (loss ! 0 ! 0) = 3"
    using rect3_length [OF r3] rect3_nth [OF r3, of 0] rect3_nth_nth [OF r3, of 0 0] by simp_all
  from CoordLoss_gate [of ?co ?cg ?va ?i3 loss 1 1] ret
  have "\<forall>b < length loss. \<forall>j < length (loss ! b).
           b < length ?i3 \<and> ?i3 ! b = Fin 0 \<and> moderate3 ?co \<and> moderate3 ?cg \<and> moderate3 ?va \<longrightarrow>
             (\<forall>k. 2 \<le> k \<and> k < length (loss ! b ! j) \<longrightarrow> loss ! b ! j ! k = Fin 0)"
    by blast
  from this [rule_format, of 0 0 2] l md have "loss ! 0 ! 0 ! 2 = Fin 0" by simp
  with ret r3 show ?thesis by blast
qed

section \<open>The round trip through a rotation matrix\<close>

lemma sin_ge_half:
  fixes x :: real
  assumes "0 \<le> x" "x \<le> 1"
  shows "x / 2 \<le> sin x"
proof -
  have "sin 0 - 0 / 2 \<le> sin x - x / 2"
  proof (rule DERIV_nonneg_imp_nondecreasing [of 0 x "\<lambda>t. sin t - t / 2"])
    show "0 \<le> x" by fact
  next
    fix t :: real assume t: "0 \<le> t" "t \<le> x"
    have d: "((\<lambda>t. sin t - t / 2) has_real_derivative cos t - 1 / 2) (at t)"
      by (auto intro!: derivative_eq_intros)
    have "t * t \<le> 1 * 1" by (rule mult_mono) (use t assms in simp_all)
    with one_minus_cos_le [of t] have "0 \<le> cos t - 1 / 2" by simp
    with d show "\<exists>y. ((\<lambda>t. sin t - t / 2) has_real_derivative y) (at t) \<and> 0 \<le> y"
      by blast
  qed
  then show ?thesis by simp
qed

lemma sin_ge_on_interval:
  fixes x m :: real
  assumes m: "0 \<le> m" "m \<le> 1" and x: "m \<le> x" "x \<le> pi - m"
  shows "m / 2 \<le> sin x"
proof -
  have half: "1 \<le> pi / 2" using pi_ge_two by simp
  have base: "m / 2 \<le> sin y" if "m \<le> y" "y \<le> pi / 2" for y
  proof -
    have "sin m \<le> sin y"
      by (rule sin_monotone_2pi_le) (use that m in simp_all)
    with sin_ge_half [OF m] show ?thesis by simp
  qed
  show ?thesis
  proof (cases "x \<le> pi / 2")
    case True
    with base x show ?thesis by simp
  next
    case False
    then have "m \<le> pi - x" "pi - x \<le> pi / 2" using x by simp_all
    from base [OF this] show ?thesis by simp
  qed
qed

text \<open>The angle recovered from a cosine that is slightly too large.\<close>

lemma arccos_perturbed:
  fixes a delta eta m :: real
  assumes a: "eta \<le> a" "a \<le> pi" and eta: "0 \<le> eta"
    and delta: "0 \<le> delta" "cos a + delta \<le> cos (a - eta)"
  shows "a - eta \<le> arccos (cos a + delta)" "arccos (cos a + delta) \<le> a"
proof -
  have a0: "0 \<le> a" using a eta by simp
  have up: "cos a + delta \<le> 1"
    using delta(2) cos_le_one [of "a - eta"] by linarith
  have lo: "- 1 \<le> cos a + delta"
    using delta(1) cos_ge_minus_one [of a] by linarith
  have "arccos (cos (a - eta)) \<le> arccos (cos a + delta)"
    by (rule arccos_le_mono [THEN iffD2]) (use up lo delta in \<open>simp_all add: abs_le_iff\<close>)
  moreover have "arccos (cos (a - eta)) = a - eta"
    by (rule arccos_cos) (use a eta in simp_all)
  ultimately show "a - eta \<le> arccos (cos a + delta)" by simp
  have "arccos (cos a + delta) \<le> arccos (cos a)"
    by (rule arccos_le_mono [THEN iffD2]) (use up lo delta in \<open>simp_all add: abs_le_iff\<close>)
  moreover have "arccos (cos a) = a" by (rule arccos_cos) (use a a0 in simp_all)
  ultimately show "arccos (cos a + delta) \<le> a" by simp
qed

lemma cos_gap:
  fixes a eta :: real
  shows "cos (a - eta) - cos a = 2 * sin (a - eta / 2) * sin (eta / 2)"
  using cos_diff_cos [of "a - eta" a] by (simp add: field_simps)

lemma axis_angle_of_rot_about:
  "axis_angle_of (rot_about s c (p, q, r)) =
     (if arccos (min (max (1 - c * (p * p + q * q + r * r)) (- 1)) 1) < 1 / 10 ^ 3 then (0, 0, 0)
      else (arccos (min (max (1 - c * (p * p + q * q + r * r)) (- 1)) 1)
              * (2 * s * p / (rnorm3 (2 * s * p, 2 * s * q, 2 * s * r) + 1 / 10 ^ 8)),
            arccos (min (max (1 - c * (p * p + q * q + r * r)) (- 1)) 1)
              * (2 * s * q / (rnorm3 (2 * s * p, 2 * s * q, 2 * s * r) + 1 / 10 ^ 8)),
            arccos (min (max (1 - c * (p * p + q * q + r * r)) (- 1)) 1)
              * (2 * s * r / (rnorm3 (2 * s * p, 2 * s * q, 2 * s * r) + 1 / 10 ^ 8))))"
proof -
  have tr: "(1 - c * (q * q + r * r) + (1 - c * (p * p + r * r)) + (1 - c * (p * p + q * q)) - 1) / 2
        = 1 - c * (p * p + q * q + r * r)"
    by (simp add: field_simps)
  have a0: "c * (q * r) + s * p - (c * (q * r) - s * p) = 2 * s * p" by simp
  have a1: "c * (p * r) + s * q - (c * (p * r) - s * q) = 2 * s * q" by simp
  have a2: "c * (p * q) + s * r - (c * (p * q) - s * r) = 2 * s * r" by simp
  show ?thesis
    unfolding axis_angle_of_def rot_about_def prod.case Let_def tr a0 a1 a2 ..
qed

lemma abs_le_rnorm3: "\<bar>x\<bar> \<le> rnorm3 (x, y, z)" "\<bar>y\<bar> \<le> rnorm3 (x, y, z)" "\<bar>z\<bar> \<le> rnorm3 (x, y, z)"
proof -
  have sq: "0 \<le> x * x" "0 \<le> y * y" "0 \<le> z * z" by simp_all
  have "sqrt (x * x) \<le> sqrt (x * x + y * y + z * z)"
    by (rule real_sqrt_le_mono) (use sq in linarith)
  then show "\<bar>x\<bar> \<le> rnorm3 (x, y, z)" by (simp add: rnorm3_def)
  have "sqrt (y * y) \<le> sqrt (x * x + y * y + z * z)"
    by (rule real_sqrt_le_mono) (use sq in linarith)
  then show "\<bar>y\<bar> \<le> rnorm3 (x, y, z)" by (simp add: rnorm3_def)
  have "sqrt (z * z) \<le> sqrt (x * x + y * y + z * z)"
    by (rule real_sqrt_le_mono) (use sq in linarith)
  then show "\<bar>z\<bar> \<le> rnorm3 (x, y, z)" by (simp add: rnorm3_def)
qed

text \<open>A vector scaled by a factor \<open>g\<close> with \<open>a g\<close> close to the norm \<open>a\<close> stays close.\<close>

lemma scaled_entry_close:
  fixes x a g tol :: real
  assumes "\<bar>x\<bar> \<le> a" "0 < a" "\<bar>a * g - a\<bar> \<le> tol"
  shows "\<bar>g * x - x\<bar> \<le> tol"
proof -
  have "g * x - x = x * (g - 1)" by (simp add: algebra_simps)
  then have "\<bar>g * x - x\<bar> = \<bar>x\<bar> * \<bar>g - 1\<bar>"
    by (simp add: abs_mult)
  also have "\<dots> \<le> a * \<bar>g - 1\<bar>"
    by (rule mult_right_mono) (use assms in simp_all)
  also have "\<dots> = \<bar>a * g - a\<bar>"
  proof -
    have "a * g - a = a * (g - 1)" by (simp add: algebra_simps)
    then show ?thesis using assms(2) by (simp add: abs_mult)
  qed
  finally show ?thesis using assms(3) by simp
qed

lemma round_trip_numbers:
  fixes x y z :: real
  assumes lo: "1 / 100 < rnorm3 (x, y, z)" and hi: "rnorm3 (x, y, z) < pi - 1 / 100"
  shows "near_vec (1 / 10 ^ 4) (axis_angle_of (rodrigues (x, y, z))) (x, y, z)"
proof -
  define a where "a = rnorm3 (x, y, z)"
  define e :: real where "e = 1 / 10 ^ 8"
  define d where "d = a + e"
  define s where "s = sin a"
  define c where "c = 1 - cos a"
  define n where "n = a / d"
  define eta :: real where "eta = 5 / 10 ^ 5"
  have a_lo: "1 / 100 < a" and a_hi: "a < pi - 1 / 100"
    using lo hi by (simp_all add: a_def)
  have a0: "0 < a" using a_lo by simp
  have a4: "a \<le> 4" using a_hi pi_less_4 by simp
  have e0: "0 < e" by (simp add: e_def)
  have d0: "0 < d" using a0 e0 by (simp add: d_def)
  have n0: "0 \<le> n" and n1: "n \<le> 1"
    using a0 d0 e0 by (simp_all add: n_def d_def)
  have nhalf: "1 / 2 \<le> n"
  proof -
    have "e \<le> a" using a_lo by (simp add: e_def)
    then have "d \<le> 2 * a" by (simp add: d_def)
    then show ?thesis using d0 by (simp add: n_def field_simps)
  qed
  have omn: "1 - n = e / d" using d0 by (simp add: n_def d_def field_simps)
  have n2: "(x / d) * (x / d) + (y / d) * (y / d) + (z / d) * (z / d) = n * n"
    unfolding n_def d_def a_def e_def by (rule axis_sq_norm)
  have rod: "rodrigues (x, y, z) = rot_about s c (x / d, y / d, z / d)"
    by (simp add: rodrigues_def a_def d_def e_def s_def c_def Let_def)
  \<comment> \<open>the cosine handed to \<open>acos\<close>\<close>
  define delta where "delta = c * (1 - n * n)"
  have c0: "0 \<le> c" and ca: "c \<le> a * a / 2"
    using one_minus_cos_range(1) [of a] one_minus_cos_le [of a] by (simp_all add: c_def)
  have w0: "1 - c * (n * n) = cos a + delta"
    by (simp add: delta_def c_def algebra_simps)
  have onn: "1 - n * n = (1 - n) * (1 + n)" by (simp add: algebra_simps)
  have onn0: "0 \<le> 1 - n * n" unfolding onn using n0 n1 by simp
  have onn_le: "1 - n * n \<le> 2 * (e / d)"
  proof -
    have "(1 - n) * (1 + n) \<le> (1 - n) * 2"
      by (rule mult_left_mono) (use n0 n1 in simp_all)
    then show ?thesis unfolding onn omn by simp
  qed
  have delta0: "0 \<le> delta" unfolding delta_def using c0 onn0 by simp
  have delta_le: "delta \<le> 4 * e"
  proof -
    have "delta \<le> (a * a / 2) * (2 * (e / d))"
      unfolding delta_def by (rule mult_mono) (use ca onn_le onn0 a0 in simp_all)
    also have "\<dots> = a * n * e" by (simp add: n_def)
    also have "\<dots> \<le> 4 * 1 * e"
      by (intro mult_mono) (use a0 a4 n0 n1 e0 in simp_all)
    finally show ?thesis by simp
  qed
  have gap: "cos a + delta \<le> cos (a - eta)"
  proof -
    have s1: "(1 / 200) / 2 \<le> sin (a - eta / 2)"
      by (rule sin_ge_on_interval) (use a_lo a_hi in \<open>simp_all add: eta_def\<close>)
    have s2: "(eta / 2) / 2 \<le> sin (eta / 2)"
      by (rule sin_ge_half) (simp_all add: eta_def)
    have "((1 / 200) / 2) * ((eta / 2) / 2) \<le> sin (a - eta / 2) * sin (eta / 2)"
      by (rule mult_mono [OF s1 s2]) (use s1 in \<open>simp_all add: eta_def\<close>)
    then have "4 * e \<le> 2 * sin (a - eta / 2) * sin (eta / 2)"
      by (simp add: eta_def e_def)
    with delta_le cos_gap [of a eta] show ?thesis by linarith
  qed
  define ang where "ang = arccos (cos a + delta)"
  have ang_lo: "a - eta \<le> ang" and ang_hi: "ang \<le> a"
    unfolding ang_def
    by (rule arccos_perturbed [OF _ _ _ delta0 gap]; use a_lo a_hi in \<open>simp add: eta_def\<close>)+
  have ang0: "0 \<le> ang" using ang_lo a_lo by (simp add: eta_def)
  have wr: "- 1 \<le> cos a + delta" "cos a + delta \<le> 1"
  proof -
    show "- 1 \<le> cos a + delta" using delta0 cos_ge_minus_one [of a] by linarith
    show "cos a + delta \<le> 1" using gap cos_le_one [of "a - eta"] by linarith
  qed
  have clamp: "min (max (1 - c * ((x / d) * (x / d) + (y / d) * (y / d) + (z / d) * (z / d))) (- 1)) 1
        = cos a + delta"
    unfolding n2 w0 using wr by simp
  have big: "\<not> ang < 1 / 10 ^ 3" using ang_lo a_lo by (simp add: eta_def)
  \<comment> \<open>the norm of the skew part\<close>
  define nrm where "nrm = rnorm3 (2 * s * (x / d), 2 * s * (y / d), 2 * s * (z / d))"
  have s_lo: "1 / 200 \<le> s"
    unfolding s_def using sin_ge_on_interval [of "1 / 100" a] a_lo a_hi by simp
  have nrm_eq: "nrm = 2 * s * n"
  proof -
    have "nrm = rnorm3 ((2 * s / d) * x, (2 * s / d) * y, (2 * s / d) * z)"
      by (simp add: nrm_def)
    also have "\<dots> = \<bar>2 * s / d\<bar> * a"
      unfolding rnorm3_scale a_def ..
    also have "\<dots> = 2 * s * n" using s_lo d0 by (simp add: n_def)
    finally show ?thesis .
  qed
  have nrm_lo: "1 / 200 \<le> nrm"
  proof -
    have "2 * (1 / 200) * (1 / 2) \<le> 2 * s * n"
      by (intro mult_mono) (use s_lo nhalf in simp_all)
    then show ?thesis unfolding nrm_eq by simp
  qed
  define d2 where "d2 = nrm + e"
  have d20: "0 < d2" using nrm_lo e0 by (simp add: d2_def)
  define t where "t = nrm / d2"
  have t1: "t \<le> 1" and t0: "0 \<le> t"
    using nrm_lo e0 d20 by (simp_all add: t_def d2_def)
  have omt: "1 - t = e / d2" using d20 by (simp add: t_def d2_def field_simps)
  have omt_le: "1 - t \<le> 200 * e"
  proof -
    have "e / d2 \<le> e / (1 / 200)"
      by (rule divide_left_mono) (use e0 nrm_lo d20 in \<open>simp_all add: d2_def\<close>)
    then show ?thesis unfolding omt by simp
  qed
  \<comment> \<open>the returned vector\<close>
  define g where "g = ang * (2 * s / (d * d2))"
  have out: "axis_angle_of (rodrigues (x, y, z)) = (g * x, g * y, g * z)"
    unfolding rod axis_angle_of_rot_about clamp ang_def [symmetric] nrm_def [symmetric]
      e_def [symmetric] d2_def [symmetric]
    using big by (simp add: g_def)
  have ag: "a * g = ang * t"
    using d0 d20 by (simp add: g_def t_def nrm_eq n_def)
  have err: "\<bar>a * g - a\<bar> \<le> 1 / 10 ^ 4"
  proof -
    have up: "ang * t \<le> a"
    proof -
      have "ang * t \<le> ang * 1" by (rule mult_left_mono) (use t1 ang0 in simp_all)
      with ang_hi show ?thesis by simp
    qed
    have "ang * (1 - t) \<le> 4 * (200 * e)"
      by (rule mult_mono) (use ang_hi a4 omt_le ang0 t1 in simp_all)
    moreover have "a - ang * t = (a - ang) + ang * (1 - t)" by (simp add: algebra_simps)
    ultimately have "a - ang * t \<le> eta + 4 * (200 * e)" using ang_lo by simp
    then have "a - ang * t \<le> 1 / 10 ^ 4" by (simp add: eta_def e_def)
    with up show ?thesis unfolding ag by simp
  qed
  have "\<bar>g * x - x\<bar> \<le> 1 / 10 ^ 4" "\<bar>g * y - y\<bar> \<le> 1 / 10 ^ 4" "\<bar>g * z - z\<bar> \<le> 1 / 10 ^ 4"
    by (rule scaled_entry_close [OF _ a0 err], unfold a_def, rule abs_le_rnorm3)+
  then show ?thesis unfolding out by (simp add: near_vec_def)
qed

text \<open>
  Claim C1. For every vector of numbers \<open>v\<close> whose norm lies strictly between \<open>0.01\<close> and
  \<open>\<pi> - 0.01\<close>, converting \<open>v\<close> to a matrix and the matrix back gives a vector of numbers
  within \<open>1/10000\<close> of \<open>v\<close>, entry by entry.
\<close>

theorem round_trip:
  assumes "1 / 100 < rnorm3 v" and "rnorm3 v < pi - 1 / 100"
  shows "\<exists>w. matrix_to_axis_angle (axis_angle_to_matrix [fin_vec v]) = [fin_vec w]
            \<and> near_vec (1 / 10 ^ 4) w v"
proof -
  obtain x y z where v: "v = (x, y, z)" by (metis prod_cases3)
  have "\<not> rnorm3 v < 1 / 10 ^ 3" using assms(1) by simp
  then have "axis_angle_to_matrix [fin_vec v] = [fin_mat (rodrigues v)]"
    by (simp add: axis_angle_to_matrix_def row_numeric_vec)
  then have "matrix_to_axis_angle (axis_angle_to_matrix [fin_vec v])
               = [fin_vec (axis_angle_of (rodrigues v))]"
    by (simp add: matrix_to_axis_angle_def m2a_row_numeric)
  moreover have "near_vec (1 / 10 ^ 4) (axis_angle_of (rodrigues v)) v"
    using assms unfolding v by (rule round_trip_numbers)
  ultimately show ?thesis by blast
qed

theorem round_trip_witness:
  "\<exists>w. matrix_to_axis_angle (axis_angle_to_matrix [fin_vec (0, 0, 1)]) = [fin_vec w]
        \<and> near_vec (1 / 10 ^ 4) w (0, 0, 1)"
proof -
  have n: "rnorm3 (0, 0, 1) = 1" by (simp add: rnorm3_def)
  have "1 / 100 < rnorm3 (0, 0, 1)" "rnorm3 (0, 0, 1) < pi - 1 / 100"
    unfolding n using pi_ge_two by simp_all
  then show ?thesis by (rule round_trip)
qed

end
